theory Spec2Isabelle
  imports
    Main
    "HOL-Library.Multiset"
    "HOL-Library.Char_ord"
    "HOL-Library.List_Lexorder"
    "HOL-Library.Word"
begin

unbundle bit_operations_syntax

section \<open>Errors, events and the state threaded through the phases\<close>

text \<open>
  Go errors are values.  \<open>ErrObjectNotFound\<close> is go-git's
  \<^verbatim>\<open>plumbing.ErrObjectNotFound\<close>, \<open>ErrFileNotFound\<close> is
  \<^verbatim>\<open>object.ErrFileNotFound\<close>; \<open>ErrNew msg\<close> is
  \<^verbatim>\<open>errors.New(msg)\<close> (also any error value handed back by a
  collaborator); \<open>Errorf prefix err\<close> is \<^verbatim>\<open>fmt.Errorf(prefix + "%s", err)\<close>.
\<close>

datatype error =
    ErrObjectNotFound
  | ErrFileNotFound
  | ErrNew string
  | Errorf string error

section \<open>pkg/git\_repo/base.go: commit existence\<close>

text \<open>
  The go-git calls used by \<^verbatim>\<open>isCommitExists\<close>, read from the world \<open>'w\<close>:
  \<^verbatim>\<open>git.PlainOpen(repoPath)\<close> (\<open>None\<close>: the repository opened; it is then
  identified by its path), \<^verbatim>\<open>newHash(commit)\<close> and
  \<^verbatim>\<open>repository.CommitObject(hash)\<close> (\<open>None\<close>: the commit object was found).
  \<open>CommitFile\<close> is \<^verbatim>\<open>commit.File(name)\<close> on the commit found; the last three
  fields are true\_git's \<^verbatim>\<open>PrepareWorkTree\<close>,
  \<^verbatim>\<open>PrepareWorkTreeWithSubmodules\<close> and \<^verbatim>\<open>PathFilter.IsFilePathValid\<close>, all
  declared outside the given sources.
\<close>

type_synonym Hash = string

record PathFilter =
  FilterBasePath :: string
  FilterIncludePaths :: "string list"
  FilterExcludePaths :: "string list"

record 'w git_api =
  PlainOpen :: "string \<Rightarrow> 'w \<Rightarrow> error option"
  newHash :: "string \<Rightarrow> error + Hash"
  CommitObject :: "string \<Rightarrow> Hash \<Rightarrow> 'w \<Rightarrow> error option"
  CommitFile :: "string \<Rightarrow> Hash \<Rightarrow> string \<Rightarrow> 'w \<Rightarrow> error option"
  PrepareWorkTree :: "string \<Rightarrow> string \<Rightarrow> string \<Rightarrow> 'w \<Rightarrow> error option \<times> 'w"
  PrepareWorkTreeWithSubmodules :: "string \<Rightarrow> string \<Rightarrow> string \<Rightarrow> 'w \<Rightarrow> error option \<times> 'w"
  IsFilePathValid :: "PathFilter \<Rightarrow> string \<Rightarrow> bool"

text \<open>\<^verbatim>\<open>func (repo *Base) isCommitExists(repoPath string, commit string) (bool, error)\<close>\<close>

definition isCommitExists ::
  "'w git_api \<Rightarrow> 'w \<Rightarrow> string \<Rightarrow> string \<Rightarrow> bool \<times> error option" where
  "isCommitExists G w repoPath commit =
     (case PlainOpen G repoPath w of
        Some err \<Rightarrow> (False, Some (Errorf (''cannot open repo `'' @ repoPath @ ''`: '') err))
      | None \<Rightarrow>
          (case newHash G commit of
             Inl err \<Rightarrow> (False, Some (Errorf (''bad commit hash `'' @ commit @ ''`: '') err))
           | Inr commitHash \<Rightarrow>
               (case CommitObject G repoPath commitHash w of
                  Some err \<Rightarrow>
                    if err = ErrObjectNotFound then (False, None)
                    else (False, Some (Errorf (''bad commit `'' @ commit @ ''`: '') err))
                | None \<Rightarrow> (True, None))))"

text \<open>
  pkg/git\_repo/remote.go: \<^verbatim>\<open>Remote.IsCommitExists\<close> calls
  \<^verbatim>\<open>repo.isCommitExists(repo.ClonePath, commit)\<close>.
\<close>

record Remote =
  RepoName :: string
  Url :: string
  ClonePath :: string
  IsDryRun :: bool

definition IsCommitExists ::
  "'w git_api \<Rightarrow> 'w \<Rightarrow> Remote \<Rightarrow> string \<Rightarrow> bool \<times> error option" where
  "IsCommitExists G w repo commit = isCommitExists G w (ClonePath repo) commit"

text \<open>
  A git path of a stage.  \<^verbatim>\<open>gitPath.GitRepo()\<close> is the field \<open>GitRepo\<close>;
  \<^verbatim>\<open>gitPath.GetGitCommitFromImageLabels(builtImage)\<close> is declared outside the
  given sources and is the parameter \<open>labelCommit\<close> of the functions below (a stage
  image is referred to by its name).
\<close>

record GitPath =
  GitPathName :: string
  GitRepo :: Remote

text \<open>
  \<^verbatim>\<open>func (s *GitStage) ShouldBeReset(builtImage image.ImageInterface) (bool, error)\<close>:
  the loop over \<^verbatim>\<open>s.gitPaths\<close>.
\<close>

fun GitStage_ShouldBeReset ::
  "'w git_api \<Rightarrow> (GitPath \<Rightarrow> string \<Rightarrow> 'w \<Rightarrow> string) \<Rightarrow> 'w \<Rightarrow> GitPath list \<Rightarrow> string
     \<Rightarrow> bool \<times> error option" where
  "GitStage_ShouldBeReset G labelCommit w [] builtImage = (False, None)"
| "GitStage_ShouldBeReset G labelCommit w (gitPath # rest) builtImage =
     (let commit = labelCommit gitPath builtImage w in
      case IsCommitExists G w (GitRepo gitPath) commit of
        (exist, Some err) \<Rightarrow> (False, Some err)
      | (exist, None) \<Rightarrow>
          if \<not> exist then (True, None)
          else GitStage_ShouldBeReset G labelCommit w rest builtImage)"

section \<open>The conveyor, its stages and its collaborators\<close>

text \<open>
  The build package's data, as far as the phases use it.  A \<^verbatim>\<open>*StageImage\<close> is
  referred to by its name (\<^verbatim>\<open>img.Name()\<close> is the handle itself); its state
  lives in the world \<open>'w\<close> and is read and changed only through the image backend.
  \<open>stageImage\<close> is the stage's \<^verbatim>\<open>image\<close> field (\<^verbatim>\<open>GetImage\<close> and
  \<^verbatim>\<open>SetImage\<close>); SignaturesPhase sets it for every stage it keeps.
\<close>

record stage =
  stageName :: string
  imageName :: string
  gitPaths :: "GitPath list"
  signature :: string
  stageImage :: string

record Image =
  name :: string
  baseImage :: string
  stages :: "stage list"

record Conveyor =
  imagesInOrder :: "Image list"
  projectName :: string
  sshAuthSock :: string
  imagesBySignature :: "string \<rightharpoonup> string"
  buildingGitStage :: "string \<rightharpoonup> string"

abbreviation GetImage :: "stage \<Rightarrow> string" where "GetImage s \<equiv> stageImage s"
abbreviation GetSignature :: "stage \<Rightarrow> string" where "GetSignature s \<equiv> signature s"
abbreviation GetStages :: "Image \<Rightarrow> stage list" where "GetStages i \<equiv> stages i"
abbreviation GetName :: "Image \<Rightarrow> string" where "GetName i \<equiv> name i"
abbreviation GetBaseImage :: "Image \<Rightarrow> string" where "GetBaseImage i \<equiv> baseImage i"

text \<open>
  Modelled from the spec: the Conveyor's two indices are declared outside the given
  sources.  \<open>signatureIndex\<close> maps a signature to its stage image, and
  \<open>buildingGitStage\<close> maps an image name to the name of the stage that claimed the
  slot, the empty string while the slot is empty.
\<close>

definition GetImageBySignature :: "Conveyor \<Rightarrow> string \<Rightarrow> string option" where
  "GetImageBySignature c sig = imagesBySignature c sig"

definition SetImageBySignature :: "Conveyor \<Rightarrow> string \<Rightarrow> string \<Rightarrow> Conveyor" where
  "SetImageBySignature c sig img = c\<lparr>imagesBySignature := (imagesBySignature c)(sig \<mapsto> img)\<rparr>"

definition GetBuildingGitStage :: "Conveyor \<Rightarrow> string \<Rightarrow> string" where
  "GetBuildingGitStage c imgName =
     (case buildingGitStage c imgName of None \<Rightarrow> [] | Some stName \<Rightarrow> stName)"

definition SetBuildingGitStage :: "Conveyor \<Rightarrow> string \<Rightarrow> string \<Rightarrow> Conveyor" where
  "SetBuildingGitStage c imgName stName =
     c\<lparr>buildingGitStage := (buildingGitStage c)(imgName \<mapsto> stName)\<rparr>"

text \<open>
  \<^verbatim>\<open>lock.LockOptions\<close>: the phases and the git repositories set only
  \<^verbatim>\<open>Timeout\<close>, a \<^verbatim>\<open>time.Duration\<close> in nanoseconds.
\<close>

record LockOptions =
  Timeout :: int

definition Second :: int where
  "Second = 1000000000"

text \<open>What \<^verbatim>\<open>img.Inspect()\<close> gives the log lines, rendered by \<^verbatim>\<open>%+v\<close>.\<close>

record Inspect =
  ID :: string
  Size :: string
  Created :: string

typedecl ImageBuildOptions

record BuildPhase =
  ImageBuildOptions :: ImageBuildOptions

text \<open>
  Every call to a collaborator is recorded with its arguments and, where the caller
  looks at it, its result.  A stage is named by its image's name and its own name.
\<close>

datatype event =
    EvLock string LockOptions "error option"
  | EvUnlock string
  | EvSyncDockerState string "error option"
  | EvUntag string "error option"
  | EvBuild string "error option"
  | EvSaveInCache string "error option"
  | EvAddLabel string "(string \<times> string) list"
  | EvAddVolume string string
  | EvAddEnv string "(string \<times> string) list"
  | EvGetOrCreateImage string string
  | EvSetupBaseImage string
  | EvPrepareBaseImage string "error option"
  | EvIsEmpty string string "string option" "error + bool"
  | EvGetDependencies string string string "error + string"
  | EvAfterImageSyncDockerStateHook string string "error option"
  | EvShouldBeReset string string string "bool \<times> error option"
  | EvPreRunHook string string "error option"
  | EvPrepareImage string string "string option" string "error option"
  | EvPrepareWorkTree bool string string string "error option"
  | EvLog string "string list"

record 'w st =
  world :: 'w
  trace :: "event list"

definition call :: "('w \<Rightarrow> 'r \<times> 'w) \<Rightarrow> ('r \<Rightarrow> event) \<Rightarrow> 'w st \<Rightarrow> 'r \<times> 'w st" where
  "call f ev s =
     (case f (world s) of (r, w') \<Rightarrow> (r, \<lparr>world = w', trace = trace s @ [ev r]\<rparr>))"

definition exec :: "('w \<Rightarrow> 'w) \<Rightarrow> event \<Rightarrow> 'w st \<Rightarrow> 'w st" where
  "exec f ev s = \<lparr>world = f (world s), trace = trace s @ [ev]\<rparr>"

definition emit :: "event \<Rightarrow> 'w st \<Rightarrow> 'w st" where
  "emit ev s = s\<lparr>trace := trace s @ [ev]\<rparr>"

text \<open>
  The collaborators, declared outside the given sources: the lock manager, the image
  backend (methods of a stage image), the methods of \<^verbatim>\<open>stage.Interface\<close> and of
  \<^verbatim>\<open>Image\<close> and \<^verbatim>\<open>Conveyor\<close> that create or prepare images, and two
  constants.  Each is a function of the world; \<open>IsExists\<close> and \<open>Inspect\<close> only read.
\<close>

record 'w lock_api =
  Lock :: "string \<Rightarrow> LockOptions \<Rightarrow> 'w \<Rightarrow> error option \<times> 'w"
  Unlock :: "string \<Rightarrow> 'w \<Rightarrow> 'w"

record 'w image_api =
  IsExists :: "string \<Rightarrow> 'w \<Rightarrow> bool"
  Inspect :: "string \<Rightarrow> 'w \<Rightarrow> Inspect"
  SyncDockerState :: "string \<Rightarrow> 'w \<Rightarrow> error option \<times> 'w"
  Untag :: "string \<Rightarrow> 'w \<Rightarrow> error option \<times> 'w"
  Build :: "ImageBuildOptions \<Rightarrow> string \<Rightarrow> 'w \<Rightarrow> error option \<times> 'w"
  SaveInCache :: "string \<Rightarrow> 'w \<Rightarrow> error option \<times> 'w"
  AddLabel :: "string \<Rightarrow> (string \<times> string) list \<Rightarrow> 'w \<Rightarrow> 'w"
  AddVolume :: "string \<Rightarrow> string \<Rightarrow> 'w \<Rightarrow> 'w"
  AddEnv :: "string \<Rightarrow> (string \<times> string) list \<Rightarrow> 'w \<Rightarrow> 'w"

record 'w stage_api =
  IsEmpty :: "stage \<Rightarrow> Conveyor \<Rightarrow> string option \<Rightarrow> 'w \<Rightarrow> (error + bool) \<times> 'w"
  GetDependencies :: "stage \<Rightarrow> Conveyor \<Rightarrow> string \<Rightarrow> 'w \<Rightarrow> (error + string) \<times> 'w"
  AfterImageSyncDockerStateHook ::
    "stage \<Rightarrow> Conveyor \<Rightarrow> 'w \<Rightarrow> (error option \<times> Conveyor) \<times> 'w"
  ShouldBeReset :: "stage \<Rightarrow> string \<Rightarrow> 'w \<Rightarrow> (bool \<times> error option) \<times> 'w"
  PreRunHook :: "stage \<Rightarrow> Conveyor \<Rightarrow> 'w \<Rightarrow> error option \<times> 'w"
  PrepareImage :: "stage \<Rightarrow> Conveyor \<Rightarrow> string option \<Rightarrow> string \<Rightarrow> 'w \<Rightarrow> error option \<times> 'w"

record 'w conveyor_api =
  SetupBaseImage :: "Image \<Rightarrow> Conveyor \<Rightarrow> 'w \<Rightarrow> string \<times> 'w"
  PrepareBaseImage :: "Image \<Rightarrow> Conveyor \<Rightarrow> 'w \<Rightarrow> error option \<times> 'w"
  GetOrCreateImage :: "string \<Rightarrow> string \<Rightarrow> 'w \<Rightarrow> 'w"

record 'w backend =
  locks :: "'w lock_api"
  images :: "'w image_api"
  stageOps :: "'w stage_api"
  conveyorOps :: "'w conveyor_api"
  sha256 :: "string \<Rightarrow> string"
  werfVersion :: string

section \<open>RenewPhase\<close>

text \<open>
  \<^verbatim>\<open>unlockLocks\<close>: while \<^verbatim>\<open>acquiredLocks\<close> is not empty, take its first
  name off and \<^verbatim>\<open>lock.Unlock\<close> it.  RenewPhase and BuildPhase each declare this
  closure over their own \<^verbatim>\<open>acquiredLocks\<close>.  The \<^verbatim>\<open>debug()\<close> printing of the
  phases writes to standard output only and is left out.
\<close>

fun unlockLocks :: "'w backend \<Rightarrow> string list \<Rightarrow> 'w st \<Rightarrow> 'w st" where
  "unlockLocks B [] s = s"
| "unlockLocks B (lockName # acquiredLocks) s =
     unlockLocks B acquiredLocks (exec (Unlock (locks B) lockName) (EvUnlock lockName) s)"

text \<open>The deferred calls of a function run last-deferred first, each on its own list.\<close>

fun run_deferred :: "'w backend \<Rightarrow> string list list \<Rightarrow> 'w st \<Rightarrow> 'w st" where
  "run_deferred B [] s = s"
| "run_deferred B (acquiredLocks # deferred) s =
     run_deferred B deferred (unlockLocks B acquiredLocks s)"

definition ConveyorShouldBeResetError :: error where
  "ConveyorShouldBeResetError = ErrNew ''conveyor should be reset''"

text \<open>
  The lock pass of \<^verbatim>\<open>RenewPhase.run\<close> (the loop under \<^verbatim>\<open>// lock\<close>).  The
  source never assigns to \<^verbatim>\<open>acquiredLocks\<close> here, so the loop has no list to return.
\<close>

fun RenewPhase_lock ::
  "'w backend \<Rightarrow> Conveyor \<Rightarrow> stage list \<Rightarrow> 'w st \<Rightarrow> error option \<times> 'w st" where
  "RenewPhase_lock B c [] s = (None, s)"
| "RenewPhase_lock B c (stage # rest) s =
     (let img = GetImage stage in
      if \<not> IsExists (images B) img (world s) then RenewPhase_lock B c rest s
      else
        (let imageLockName = projectName c @ ''.image.'' @ img in
         case call (Lock (locks B) imageLockName \<lparr>Timeout = 0\<rparr>)
                   (EvLock imageLockName \<lparr>Timeout = 0\<rparr>) s of
           (Some err, s1) \<Rightarrow>
             (Some (Errorf (''failed to lock '' @ imageLockName @ '': '') err), s1)
         | (None, s1) \<Rightarrow>
             (case call (SyncDockerState (images B) img) (EvSyncDockerState img) s1 of
                (Some err, s2) \<Rightarrow> (Some err, s2)
              | (None, s2) \<Rightarrow> RenewPhase_lock B c rest s2)))"

text \<open>
  The second loop of \<^verbatim>\<open>RenewPhase.run\<close> (under \<^verbatim>\<open>// build\<close>); the flag
  \<^verbatim>\<open>conveyorShouldBeReset\<close> is threaded through.
\<close>

fun RenewPhase_check ::
  "'w backend \<Rightarrow> Image \<Rightarrow> stage list \<Rightarrow> bool \<Rightarrow> 'w st \<Rightarrow> error option \<times> bool \<times> 'w st" where
  "RenewPhase_check B anImage [] conveyorShouldBeReset s = (None, conveyorShouldBeReset, s)"
| "RenewPhase_check B anImage (st # rest) conveyorShouldBeReset s =
     (let img = GetImage st in
      if IsExists (images B) img (world s) then
        (case call (ShouldBeReset (stageOps B) st img)
                   (EvShouldBeReset (imageName st) (stageName st) img) s of
           ((stageShouldBeReset, Some err), s1) \<Rightarrow> (Some err, conveyorShouldBeReset, s1)
         | ((stageShouldBeReset, None), s1) \<Rightarrow>
             if stageShouldBeReset then
               (let s2 = emit (EvLog ''LogServiceF''
                                 [''Untag '', img, '' for '', GetName anImage, ''/'', stageName st]) s1
                in case call (Untag (images B) img) (EvUntag img) s2 of
                     (Some err, s3) \<Rightarrow> (Some err, True, s3)
                   | (None, s3) \<Rightarrow> RenewPhase_check B anImage rest True s3)
             else RenewPhase_check B anImage rest conveyorShouldBeReset s1)
      else RenewPhase_check B anImage rest conveyorShouldBeReset s)"

text \<open>
  The loop of \<^verbatim>\<open>RenewPhase.run\<close> over \<^verbatim>\<open>c.imagesInOrder\<close>.  Each iteration
  declares a fresh \<^verbatim>\<open>acquiredLocks\<close> and defers \<^verbatim>\<open>unlockLocks\<close> on it;
  \<open>deferred\<close> holds the lists of the iterations begun so far, which run when the
  function returns.
\<close>

fun RenewPhase_images ::
  "'w backend \<Rightarrow> Conveyor \<Rightarrow> Image list \<Rightarrow> bool \<Rightarrow> string list list \<Rightarrow> 'w st
     \<Rightarrow> error option \<times> 'w st" where
  "RenewPhase_images B c [] conveyorShouldBeReset deferred s =
     ((if conveyorShouldBeReset then Some ConveyorShouldBeResetError else None),
      run_deferred B deferred s)"
| "RenewPhase_images B c (anImage # rest) conveyorShouldBeReset deferred s =
     (let acquiredLocks = [] in
      case RenewPhase_lock B c (GetStages anImage) s of
        (Some err, s1) \<Rightarrow> (Some err, run_deferred B (acquiredLocks # deferred) s1)
      | (None, s1) \<Rightarrow>
          (case RenewPhase_check B anImage (GetStages anImage) conveyorShouldBeReset s1 of
             (Some err, reset, s2) \<Rightarrow> (Some err, run_deferred B (acquiredLocks # deferred) s2)
           | (None, reset, s2) \<Rightarrow>
               RenewPhase_images B c rest reset ([] # deferred)
                 (unlockLocks B acquiredLocks s2)))"

definition RenewPhase_run :: "'w backend \<Rightarrow> Conveyor \<Rightarrow> 'w st \<Rightarrow> error option \<times> 'w st" where
  "RenewPhase_run B c s = RenewPhase_images B c (imagesInOrder c) False [] s"

section \<open>BuildPhase\<close>

text \<open>
  \<^verbatim>\<open>unlockLock\<close> takes the first name off \<^verbatim>\<open>acquiredLocks\<close> and unlocks it;
  on an empty list the index expression panics (\<open>None\<close>).
\<close>

definition unlockLock ::
  "'w backend \<Rightarrow> string list \<Rightarrow> 'w st \<Rightarrow> (string list \<times> 'w st) option" where
  "unlockLock B acquiredLocks s =
     (case acquiredLocks of
        [] \<Rightarrow> None
      | lockName # rest \<Rightarrow>
          Some (rest, exec (Unlock (locks B) lockName) (EvUnlock lockName) s))"

text \<open>The lock pass of \<^verbatim>\<open>BuildPhase.runImage\<close>.\<close>

fun BuildPhase_lock ::
  "'w backend \<Rightarrow> Conveyor \<Rightarrow> stage list \<Rightarrow> string list \<Rightarrow> 'w st
     \<Rightarrow> error option \<times> string list \<times> 'w st" where
  "BuildPhase_lock B c [] acquiredLocks s = (None, acquiredLocks, s)"
| "BuildPhase_lock B c (stage # rest) acquiredLocks s =
     (let img = GetImage stage in
      if IsExists (images B) img (world s) then BuildPhase_lock B c rest acquiredLocks s
      else
        (let imageLockName = projectName c @ ''.image.'' @ img in
         case call (Lock (locks B) imageLockName \<lparr>Timeout = 0\<rparr>)
                   (EvLock imageLockName \<lparr>Timeout = 0\<rparr>) s of
           (Some err, s1) \<Rightarrow>
             (Some (Errorf (''failed to lock '' @ imageLockName @ '': '') err),
              acquiredLocks, s1)
         | (None, s1) \<Rightarrow>
             (case call (SyncDockerState (images B) img) (EvSyncDockerState img) s1 of
                (Some err, s2) \<Rightarrow> (Some err, acquiredLocks @ [imageLockName], s2)
              | (None, s2) \<Rightarrow>
                  BuildPhase_lock B c rest (acquiredLocks @ [imageLockName]) s2)))"

text \<open>
  The closure handed to \<^verbatim>\<open>logger.LogProcess(msg, "[BUILDING]", ...)\<close>.  It assigns
  each result to the named result \<^verbatim>\<open>err\<close> of \<^verbatim>\<open>runImage\<close>; the wrapped error
  it returns goes to \<^verbatim>\<open>LogProcess\<close>, whose result \<^verbatim>\<open>runImage\<close> drops.  The
  value given back here is \<^verbatim>\<open>err\<close> after the closure.
\<close>

definition BuildPhase_building ::
  "'w backend \<Rightarrow> BuildPhase \<Rightarrow> Conveyor \<Rightarrow> stage \<Rightarrow> 'w st \<Rightarrow> error option \<times> 'w st" where
  "BuildPhase_building B p c st s =
     (let img = GetImage st in
      case call (PreRunHook (stageOps B) st c) (EvPreRunHook (imageName st) (stageName st)) s of
        (Some err, s1) \<Rightarrow> (Some err, s1)
      | (None, s1) \<Rightarrow>
          (case call (Build (images B) (ImageBuildOptions p) img) (EvBuild img) s1 of
             (Some err, s2) \<Rightarrow> (Some err, s2)
           | (None, s2) \<Rightarrow>
               (case call (SaveInCache (images B) img) (EvSaveInCache img) s2 of
                  (Some err, s3) \<Rightarrow> (Some err, s3)
                | (None, s3) \<Rightarrow>
                    (None,
                     emit (EvLog ''LogInfoF'' [''    created: '', Created (Inspect (images B) img (world s3))])
                     (emit (EvLog ''LogInfoF'' [''    size: '', Size (Inspect (images B) img (world s3))])
                     (emit (EvLog ''LogInfoF'' [''    id: '', ID (Inspect (images B) img (world s3))])
                     (emit (EvLog ''LogInfoF'' [''    image: '', img]) s3)))))))"

text \<open>The log lines of a stage whose image exists.\<close>

definition using_cache :: "'w backend \<Rightarrow> string \<Rightarrow> string \<Rightarrow> 'w st \<Rightarrow> 'w st" where
  "using_cache B msg img s =
     emit (EvLog ''LogInfoF'' [''  created: '', Created (Inspect (images B) img (world s))])
     (emit (EvLog ''LogInfoF'' [''     size: '', Size (Inspect (images B) img (world s))])
     (emit (EvLog ''LogInfoF'' [''    image: '', img])
     (emit (EvLog ''LogInfoF'' [''       id: '', ID (Inspect (images B) img (world s))])
     (emit (EvLog ''LogServiceState'' [msg, ''[USING CACHE]'']) s))))"

text \<open>
  The build pass of \<^verbatim>\<open>BuildPhase.runImage\<close>; \<open>err\<close> is the named result and
  \<open>acquiredLocks\<close> the list of the lock pass.
\<close>

datatype 'w build_pass = Done "error option" "string list" "'w st" | Panicked "'w st"

fun BuildPhase_build ::
  "'w backend \<Rightarrow> BuildPhase \<Rightarrow> Conveyor \<Rightarrow> stage list \<Rightarrow> error option \<Rightarrow> string list \<Rightarrow> 'w st
     \<Rightarrow> 'w build_pass" where
  "BuildPhase_build B p c [] err acquiredLocks s = Done err acquiredLocks s"
| "BuildPhase_build B p c (st # rest) err acquiredLocks s =
     (let img = GetImage st; msg = stageName st in
      if IsExists (images B) img (world s) then
        BuildPhase_build B p c rest err acquiredLocks (using_cache B msg img s)
      else
        (case BuildPhase_building B p c st (emit (EvLog ''LogProcess'' [msg, ''[BUILDING]'']) s) of
           (err1, s1) \<Rightarrow>
             (case unlockLock B acquiredLocks s1 of
                None \<Rightarrow> Panicked s1
              | Some (acquiredLocks1, s2) \<Rightarrow> BuildPhase_build B p c rest err1 acquiredLocks1 s2)))"

text \<open>
  \<^verbatim>\<open>func (p *BuildPhase) runImage(image *Image, c *Conveyor) (err error)\<close>.  The
  deferred \<^verbatim>\<open>unlockLocks\<close> runs on every way out; after a panic of
  \<^verbatim>\<open>unlockLock\<close> the list it runs on is empty.
\<close>

datatype outcome = Returned "error option" | Panic

definition BuildPhase_runImage ::
  "'w backend \<Rightarrow> BuildPhase \<Rightarrow> Image \<Rightarrow> Conveyor \<Rightarrow> 'w st \<Rightarrow> outcome \<times> 'w st" where
  "BuildPhase_runImage B p anImage c s =
     (case BuildPhase_lock B c (GetStages anImage) [] s of
        (Some err, acquiredLocks, s1) \<Rightarrow> (Returned (Some err), unlockLocks B acquiredLocks s1)
      | (None, acquiredLocks, s1) \<Rightarrow>
          (case BuildPhase_build B p c (GetStages anImage) None acquiredLocks s1 of
             Done err acquiredLocks2 s2 \<Rightarrow> (Returned err, unlockLocks B acquiredLocks2 s2)
           | Panicked s2 \<Rightarrow> (Panic, unlockLocks B [] s2)))"

section \<open>PrepareImagesPhase\<close>

definition BuildCacheVersion :: string where
  "BuildCacheVersion = ''33''"

definition WerfCacheVersionLabel :: string where
  "WerfCacheVersionLabel = ''werf-cache-version''"

text \<open>
  The loop of \<^verbatim>\<open>PrepareImagesPhase.runImage\<close> over the stages; \<open>prevImage\<close> and
  \<open>prevBuiltImage\<close> are its two variables (\<open>None\<close> is the nil
  \<^verbatim>\<open>prevBuiltImage\<close>).  \<^verbatim>\<open>c.SetImageBySignature\<close> changes the conveyor, which
  is given back.
\<close>

fun PrepareImagesPhase_stages ::
  "'w backend \<Rightarrow> stage list \<Rightarrow> string \<Rightarrow> string option \<Rightarrow> Conveyor \<Rightarrow> 'w st
     \<Rightarrow> error option \<times> Conveyor \<times> 'w st" where
  "PrepareImagesPhase_stages B [] prevImage prevBuiltImage c s = (None, c, s)"
| "PrepareImagesPhase_stages B (st # rest) prevImage prevBuiltImage c s =
     (let prevBuiltImage1 =
            (if IsExists (images B) prevImage (world s) then Some prevImage else prevBuiltImage);
          stImage = GetImage st
      in
      if GetImageBySignature c (GetSignature st) \<noteq> None \<or> IsExists (images B) stImage (world s)
      then PrepareImagesPhase_stages B rest stImage prevBuiltImage1 c s
      else
        (let labels = [(''werf'', projectName c),
                       (''werf-version'', werfVersion B),
                       (WerfCacheVersionLabel, BuildCacheVersion),
                       (''werf-image'', ''false''),
                       (''werf-dev-mode'', ''false'')];
             s1 = exec (AddLabel (images B) stImage labels) (EvAddLabel stImage labels) s;
             volume = sshAuthSock c @ '':/tmp/werf-ssh-agent'';
             env = [(''SSH_AUTH_SOCK'', ''/tmp/werf-ssh-agent'')];
             s2 = (if sshAuthSock c \<noteq> [] then
                     exec (AddEnv (images B) stImage env) (EvAddEnv stImage env)
                       (exec (AddVolume (images B) stImage volume)
                          (EvAddVolume stImage volume) s1)
                   else s1)
         in case call (PrepareImage (stageOps B) st c prevBuiltImage1 stImage)
                      (EvPrepareImage (imageName st) (stageName st) prevBuiltImage1 stImage) s2 of
              (Some err, s3) \<Rightarrow>
                (Some (Errorf (''error preparing stage '' @ stageName st @ '': '') err), c, s3)
            | (None, s3) \<Rightarrow>
                PrepareImagesPhase_stages B rest stImage prevBuiltImage1
                  (SetImageBySignature c (GetSignature st) stImage) s3))"

text \<open>\<^verbatim>\<open>func (p *PrepareImagesPhase) runImage(image *Image, c *Conveyor) (err error)\<close>\<close>

definition PrepareImagesPhase_runImage ::
  "'w backend \<Rightarrow> Image \<Rightarrow> Conveyor \<Rightarrow> 'w st \<Rightarrow> error option \<times> Conveyor \<times> 'w st" where
  "PrepareImagesPhase_runImage B anImage c s =
     (case call (PrepareBaseImage (conveyorOps B) anImage c) (EvPrepareBaseImage (GetName anImage)) s of
        (Some err, s1) \<Rightarrow>
          (Some (Errorf (''error preparing base image '' @ GetBaseImage anImage @ '' of image ''
                          @ GetName anImage @ '': '') err), c, s1)
      | (None, s1) \<Rightarrow>
          PrepareImagesPhase_stages B (GetStages anImage) (baseImage anImage) None c s1)"

text \<open>
  \<^verbatim>\<open>func (p *PrepareImagesPhase) run(c *Conveyor) (err error)\<close>: the body of the loop
  over \<^verbatim>\<open>c.imagesInOrder\<close> returns \<^verbatim>\<open>err\<close> when \<^verbatim>\<open>runImage\<close> fails and
  \<^verbatim>\<open>nil\<close> otherwise, so no second iteration begins.
\<close>

fun PrepareImagesPhase_images ::
  "'w backend \<Rightarrow> Image list \<Rightarrow> Conveyor \<Rightarrow> 'w st \<Rightarrow> error option \<times> Conveyor \<times> 'w st" where
  "PrepareImagesPhase_images B [] c s = (None, c, s)"
| "PrepareImagesPhase_images B (anImage # rest) c s =
     (case PrepareImagesPhase_runImage B anImage c s of
        (Some err, c1, s1) \<Rightarrow> (Some err, c1, s1)
      | (None, c1, s1) \<Rightarrow> (None, c1, s1))"

definition PrepareImagesPhase_run ::
  "'w backend \<Rightarrow> Conveyor \<Rightarrow> 'w st \<Rightarrow> error option \<times> Conveyor \<times> 'w st" where
  "PrepareImagesPhase_run B c s = PrepareImagesPhase_images B (imagesInOrder c) c s"

section \<open>SignaturesPhase\<close>


text \<open>
  Modelled from the spec: \<^verbatim>\<open>util.Sha256Hash\<close> is declared outside the given
  sources.  The spec gives the signature as
  \<^verbatim>\<open>lowercase(hex(sha256(dependencies || "33" || prevSignatureOrEmpty)))\<close>: the
  arguments are concatenated, hashed by SHA-256 (the parameter \<open>sha256\<close>, from bytes
  to the digest's bytes) and written as lowercase hexadecimal, two digits a byte.
\<close>

definition hexdigit :: "nat \<Rightarrow> char" where
  "hexdigit n = ''0123456789abcdef'' ! n"

definition hex :: "string \<Rightarrow> string" where
  "hex bytes = concat (map (\<lambda>b. [hexdigit (of_char b div 16), hexdigit (of_char b mod 16)]) bytes)"






section \<open>GitStage\<close>

text \<open>\<^verbatim>\<open>func (s *GitStage) IsEmpty(_ Conveyor, prevBuiltImage image.ImageInterface) (bool, error)\<close>\<close>

definition GitStage_IsEmpty :: "stage \<Rightarrow> bool \<times> error option" where
  "GitStage_IsEmpty st = (length (gitPaths st) = 0, None)"

text \<open>\<^verbatim>\<open>func (s *GitStage) AfterImageSyncDockerStateHook(c Conveyor) error\<close>\<close>

definition GitStage_AfterImageSyncDockerStateHook ::
  "'w backend \<Rightarrow> stage \<Rightarrow> Conveyor \<Rightarrow> 'w st \<Rightarrow> error option \<times> Conveyor \<times> 'w st" where
  "GitStage_AfterImageSyncDockerStateHook B st c s =
     (if \<not> IsExists (images B) (stageImage st) (world s) then
        (let stName = GetBuildingGitStage c (imageName st) in
         if stName = [] then
           (None, SetBuildingGitStage c (imageName st) (stageName st),
            emit (EvLog ''LogInfoF''
                    [''Git files will be actualized on the stage '', stageName st]) s)
         else (None, c, s))
      else (None, c, s))"

text \<open>
  The hook calls SignaturesPhase makes for the git stages of one image, in the order of
  the stages.
\<close>

fun GitStage_hooks ::
  "'w backend \<Rightarrow> stage list \<Rightarrow> Conveyor \<Rightarrow> 'w st \<Rightarrow> Conveyor \<times> 'w st" where
  "GitStage_hooks B [] c s = (c, s)"
| "GitStage_hooks B (st # rest) c s =
     (case GitStage_AfterImageSyncDockerStateHook B st c s of
        (err, c1, s1) \<Rightarrow> GitStage_hooks B rest c1 s1)"

section \<open>pkg/git\_repo: locks of the repositories\<close>

text \<open>
  Modelled from the spec: \<^verbatim>\<open>lock.WithLock\<close> is declared outside the given
  sources.  It acquires the lock with the given options, runs the function and releases
  the lock; when the lock is not acquired it returns that error and does not run the
  function.  The function's results other than its error are what it leaves in the
  variables it captures.
\<close>

definition WithLock ::
  "'w lock_api \<Rightarrow> string \<Rightarrow> LockOptions \<Rightarrow> ('w st \<Rightarrow> (error + 'a) \<times> 'w st) \<Rightarrow> 'w st
     \<Rightarrow> (error + 'a) \<times> 'w st" where
  "WithLock L lockName opts f s =
     (case call (Lock L lockName opts) (EvLock lockName opts) s of
        (Some err, s1) \<Rightarrow> (Inl err, s1)
      | (None, s1) \<Rightarrow>
          (case f s1 of (r, s2) \<Rightarrow> (r, exec (Unlock L lockName) (EvUnlock lockName) s2)))"

text \<open>\<^verbatim>\<open>func (repo *Base) withWorkTreeLock(workTree string, f func() error) error\<close>\<close>

definition withWorkTreeLock ::
  "'w lock_api \<Rightarrow> string \<Rightarrow> ('w st \<Rightarrow> (error + 'a) \<times> 'w st) \<Rightarrow> 'w st \<Rightarrow> (error + 'a) \<times> 'w st" where
  "withWorkTreeLock L workTree f s =
     (let lockName = ''git_work_tree '' @ workTree
      in WithLock L lockName \<lparr>Timeout = 600 * Second\<rparr> f s)"

text \<open>\<^verbatim>\<open>func (repo *Remote) withRemoteRepoLock(f func() error) error\<close>\<close>

definition withRemoteRepoLock ::
  "'w lock_api \<Rightarrow> Remote \<Rightarrow> ('w st \<Rightarrow> (error + 'a) \<times> 'w st) \<Rightarrow> 'w st \<Rightarrow> (error + 'a) \<times> 'w st" where
  "withRemoteRepoLock L repo f s =
     (let lockName = ''remote_git_path.'' @ RepoName repo
      in WithLock L lockName \<lparr>Timeout = 600 * Second\<rparr> f s)"

section \<open>pkg/git\_repo/base.go: checksum\<close>

text \<open>
  \<^verbatim>\<open>os.FileMode\<close> is a 32-bit word; the type bits are those of the Go standard
  library.  \<^verbatim>\<open>fmt.Sprintf("%o", mode)\<close> writes the word in octal.
\<close>

type_synonym FileMode = "32 word"

definition ModeDir :: FileMode where "ModeDir = push_bit 31 1"
definition ModeSymlink :: FileMode where "ModeSymlink = push_bit 27 1"
definition ModeDevice :: FileMode where "ModeDevice = push_bit 26 1"
definition ModeNamedPipe :: FileMode where "ModeNamedPipe = push_bit 25 1"
definition ModeSocket :: FileMode where "ModeSocket = push_bit 24 1"
definition ModeCharDevice :: FileMode where "ModeCharDevice = push_bit 21 1"
definition ModeIrregular :: FileMode where "ModeIrregular = push_bit 19 1"

definition ModeType :: FileMode where
  "ModeType = ModeDir OR ModeSymlink OR ModeNamedPipe OR ModeSocket OR ModeDevice
                OR ModeCharDevice OR ModeIrregular"

definition IsRegular :: "FileMode \<Rightarrow> bool" where
  "IsRegular m = (m AND ModeType = 0)"

definition IsDir :: "FileMode \<Rightarrow> bool" where
  "IsDir m = (m AND ModeDir \<noteq> 0)"

function octal :: "nat \<Rightarrow> string" where
  "octal n = (if n < 8 then [''01234567'' ! n]
              else octal (n div 8) @ [''01234567'' ! (n mod 8)])"
  by pat_completeness auto
termination
  by (relation "measure id") auto

declare octal.simps [simp del]

text \<open>
  The file system under the work tree, read from the world: \<^verbatim>\<open>doublestar.Glob\<close>,
  \<^verbatim>\<open>os.Lstat\<close> (its mode), the visits of \<^verbatim>\<open>filepath.Walk\<close> in their order
  (the path with the access error or the mode), \<^verbatim>\<open>filepath.Rel\<close>,
  \<^verbatim>\<open>filepath.Join\<close>, \<^verbatim>\<open>os.Open\<close>, \<^verbatim>\<open>io.Copy\<close> of the opened file
  (its content), \<^verbatim>\<open>Close\<close> and \<^verbatim>\<open>os.Readlink\<close>.
\<close>

record 'w fs_api =
  Glob :: "string \<Rightarrow> 'w \<Rightarrow> error + string list"
  Lstat :: "string \<Rightarrow> 'w \<Rightarrow> error + FileMode"
  Walk :: "string \<Rightarrow> 'w \<Rightarrow> (string \<times> (error + FileMode)) list"
  Rel :: "string \<Rightarrow> string \<Rightarrow> error + string"
  Join :: "string \<Rightarrow> string \<Rightarrow> string"
  Open :: "string \<Rightarrow> 'w \<Rightarrow> error option"
  Copy :: "string \<Rightarrow> 'w \<Rightarrow> error + string"
  Close :: "string \<Rightarrow> 'w \<Rightarrow> error option"
  Readlink :: "string \<Rightarrow> 'w \<Rightarrow> error + string"

text \<open>
  The function handed to \<^verbatim>\<open>filepath.Walk\<close> in \<^verbatim>\<open>getFilesByPattern\<close>, run
  over the visits; the walk stops at the first error.  \<open>stat\<close> is the mode of the
  directory being walked, which is what the source tests for the symlink bit.  The
  \<^verbatim>\<open>err\<close> the source formats for an access error is the \<^verbatim>\<open>nil\<close> error of
  the enclosing \<^verbatim>\<open>os.Lstat\<close>.
\<close>

fun getFilesByPattern_walk ::
  "'w fs_api \<Rightarrow> string \<Rightarrow> FileMode \<Rightarrow> (string \<times> (error + FileMode)) list \<Rightarrow> string list
     \<Rightarrow> error + string list" where
  "getFilesByPattern_walk F baseDir stat [] paths = Inr paths"
| "getFilesByPattern_walk F baseDir stat ((fullWalkPath, info) # rest) paths =
     (case info of
        Inl accessErr \<Rightarrow>
          Inl (ErrNew (''error accessing file `'' @ fullWalkPath @ ''`: %!s(<nil>)''))
      | Inr infoMode \<Rightarrow>
          if IsRegular infoMode \<or> stat AND ModeSymlink \<noteq> 0 then
            (case Rel F baseDir fullWalkPath of
               Inl err \<Rightarrow>
                 Inl (Errorf (''error getting relative path for `'' @ fullWalkPath @ ''`: '') err)
             | Inr path \<Rightarrow> getFilesByPattern_walk F baseDir stat rest (paths @ [path]))
          else getFilesByPattern_walk F baseDir stat rest paths)"

text \<open>The loop of \<^verbatim>\<open>getFilesByPattern\<close> over the matches of the glob.\<close>

fun getFilesByPattern_matches ::
  "'w fs_api \<Rightarrow> 'w \<Rightarrow> string \<Rightarrow> string list \<Rightarrow> string list \<Rightarrow> error + string list" where
  "getFilesByPattern_matches F w baseDir [] paths = Inr paths"
| "getFilesByPattern_matches F w baseDir (fullPath # rest) paths =
     (case Lstat F fullPath w of
        Inl err \<Rightarrow> Inl (Errorf (''error accessing file `'' @ fullPath @ ''`: '') err)
      | Inr stat \<Rightarrow>
          if IsRegular stat \<or> stat AND ModeSymlink \<noteq> 0 then
            (case Rel F baseDir fullPath of
               Inl err \<Rightarrow>
                 Inl (Errorf (''error getting relative path for `'' @ fullPath @ ''`: '') err)
             | Inr path \<Rightarrow> getFilesByPattern_matches F w baseDir rest (paths @ [path]))
          else if IsDir stat then
            (case getFilesByPattern_walk F baseDir stat (Walk F fullPath w) paths of
               Inl err \<Rightarrow> Inl (Errorf (''error scanning directory `'' @ fullPath @ ''`: '') err)
             | Inr paths1 \<Rightarrow> getFilesByPattern_matches F w baseDir rest paths1)
          else getFilesByPattern_matches F w baseDir rest paths)"

text \<open>\<^verbatim>\<open>func getFilesByPattern(baseDir, pathPattern string) ([]string, error)\<close>\<close>

definition getFilesByPattern ::
  "'w fs_api \<Rightarrow> 'w \<Rightarrow> string \<Rightarrow> string \<Rightarrow> error + string list" where
  "getFilesByPattern F w baseDir pathPattern =
     (let fullPathPattern = Join F baseDir pathPattern
      in case Glob F fullPathPattern w of
           Inl err \<Rightarrow> Inl err
         | Inr matches \<Rightarrow> getFilesByPattern_matches F w baseDir matches [])"

record ChecksumOptions =
  BasePath :: string
  IncludePaths :: "string list"
  ExcludePaths :: "string list"
  Paths :: "string list"
  Commit :: string

text \<open>
  \<^verbatim>\<open>ChecksumDescriptor\<close>: the patterns without a match and the hash.  \<open>Hash\<close>
  holds the bytes written to \<^verbatim>\<open>sha256.New()\<close> so far; a write to it does not fail.
\<close>

record ChecksumDescriptor =
  NoMatchPaths :: "string list"
  Hash :: string

text \<open>
  Modelled from the spec: the digest of a checksum, \<^verbatim>\<open>checksum.String()\<close>, is
  declared outside the given sources; it is the SHA-256 (the parameter \<open>H\<close>) of the
  bytes written, in hexadecimal.
\<close>

definition ChecksumString :: "(string \<Rightarrow> string) \<Rightarrow> ChecksumDescriptor \<Rightarrow> string" where
  "ChecksumString H d = hex (H (Hash d))"

text \<open>The loop of \<^verbatim>\<open>checksum\<close> over \<^verbatim>\<open>opts.Paths\<close>.\<close>

fun checksum_patterns ::
  "'w fs_api \<Rightarrow> 'w \<Rightarrow> string \<Rightarrow> string \<Rightarrow> string list \<Rightarrow> string list \<Rightarrow> string list
     \<Rightarrow> error + (string list \<times> string list)" where
  "checksum_patterns F w workTreeDir basePath [] paths noMatchPaths = Inr (paths, noMatchPaths)"
| "checksum_patterns F w workTreeDir basePath (pathPattern # rest) paths noMatchPaths =
     (case getFilesByPattern F w workTreeDir (Join F basePath pathPattern) of
        Inl err \<Rightarrow>
          Inl (Errorf (''error getting files by path pattern `'' @ pathPattern @ ''`: '') err)
      | Inr res \<Rightarrow>
          checksum_patterns F w workTreeDir basePath rest (paths @ res)
            (if length res = 0 then noMatchPaths @ [pathPattern] else noMatchPaths))"

text \<open>
  The loop of \<^verbatim>\<open>checksum\<close> over the sorted paths; \<open>h\<close> is the hash.  For a path
  the filter lets through, the path is written first, then the octal mode, then the
  content of a regular file or the target of a symlink.
\<close>

fun checksum_paths ::
  "'w git_api \<Rightarrow> 'w fs_api \<Rightarrow> 'w \<Rightarrow> PathFilter \<Rightarrow> string \<Rightarrow> string list \<Rightarrow> string
     \<Rightarrow> error + string" where
  "checksum_paths G F w pathFilter workTreeDir [] h = Inr h"
| "checksum_paths G F w pathFilter workTreeDir (path # rest) h =
     (let fullPath = Join F workTreeDir path in
      if \<not> IsFilePathValid G pathFilter path then
        checksum_paths G F w pathFilter workTreeDir rest h
      else
        (let h1 = h @ path in
         case Lstat F fullPath w of
           Inl err \<Rightarrow> Inl (Errorf (''error accessing file `'' @ fullPath @ ''`: '') err)
         | Inr mode \<Rightarrow>
             (let h2 = h1 @ octal (unat mode) in
              if IsRegular mode then
                (case Open F fullPath w of
                   Some err \<Rightarrow> Inl (Errorf (''unable to open file `'' @ fullPath @ ''`: '') err)
                 | None \<Rightarrow>
                     (case Copy F fullPath w of
                        Inl err \<Rightarrow>
                          Inl (Errorf (''error calculating checksum of file `'' @ fullPath
                                        @ ''` content: '') err)
                      | Inr content \<Rightarrow>
                          (case Close F fullPath w of
                             Some err \<Rightarrow>
                               Inl (Errorf (''error closing file `'' @ fullPath @ ''`: '') err)
                           | None \<Rightarrow>
                               checksum_paths G F w pathFilter workTreeDir rest (h2 @ content))))
              else if mode AND ModeSymlink \<noteq> 0 then
                (case Readlink F fullPath w of
                   Inl err \<Rightarrow> Inl (Errorf (''cannot read symlink `'' @ fullPath @ ''`: '') err)
                 | Inr linkname \<Rightarrow>
                     checksum_paths G F w pathFilter workTreeDir rest (h2 @ linkname))
              else checksum_paths G F w pathFilter workTreeDir rest h2)))"

text \<open>\<^verbatim>\<open>func HasSubmodulesInCommit(commit *object.Commit) (bool, error)\<close>\<close>

definition HasSubmodulesInCommit ::
  "'w git_api \<Rightarrow> string \<Rightarrow> Hash \<Rightarrow> 'w \<Rightarrow> bool \<times> error option" where
  "HasSubmodulesInCommit G repoPath commitHash w =
     (case CommitFile G repoPath commitHash ''.gitmodules'' w of
        Some err \<Rightarrow> if err = ErrFileNotFound then (False, None) else (False, Some err)
      | None \<Rightarrow> (True, None))"

text \<open>
  The function \<^verbatim>\<open>checksum\<close> runs under the work tree lock, in two parts: the
  preparation of the work tree (\<open>checksum_locked\<close>), then the collecting, sorting and
  hashing of the paths (\<open>checksum_files\<close>).  With
  \<^verbatim>\<open>WERF_DEBUG_GIT_REPO_CHECKSUM\<close> set the source also prints to standard output
  and reads each regular file a second time; that is left out.
\<close>

definition checksum_files ::
  "'w git_api \<Rightarrow> 'w fs_api \<Rightarrow> string \<Rightarrow> ChecksumOptions \<Rightarrow> 'w st
     \<Rightarrow> (error + ChecksumDescriptor) \<times> 'w st" where
  "checksum_files G F workTreeDir opts s1 =
     (case checksum_patterns F (world s1) workTreeDir (BasePath opts) (Paths opts) [] [] of
        Inl err \<Rightarrow> (Inl err, s1)
      | Inr (paths, noMatchPaths) \<Rightarrow>
          (let pathFilter = \<lparr>FilterBasePath = BasePath opts,
                             FilterIncludePaths = IncludePaths opts,
                             FilterExcludePaths = ExcludePaths opts\<rparr>
           in case checksum_paths G F (world s1) pathFilter workTreeDir (sort paths) [] of
                Inl err \<Rightarrow> (Inl err, s1)
              | Inr h \<Rightarrow> (Inr \<lparr>NoMatchPaths = noMatchPaths, Hash = h\<rparr>, s1)))"

definition checksum_locked ::
  "'w git_api \<Rightarrow> 'w fs_api \<Rightarrow> bool \<Rightarrow> string \<Rightarrow> string \<Rightarrow> ChecksumOptions \<Rightarrow> 'w st
     \<Rightarrow> (error + ChecksumDescriptor) \<times> 'w st" where
  "checksum_locked G F hasSubmodules gitDir workTreeDir opts s =
     (case call (if hasSubmodules
                 then PrepareWorkTreeWithSubmodules G gitDir workTreeDir (Commit opts)
                 else PrepareWorkTree G gitDir workTreeDir (Commit opts))
                (EvPrepareWorkTree hasSubmodules gitDir workTreeDir (Commit opts)) s of
        (Some err, s1) \<Rightarrow> (Inl err, s1)
      | (None, s1) \<Rightarrow> checksum_files G F workTreeDir opts s1)"

text \<open>
  \<^verbatim>\<open>func (repo *Base) checksum(repoPath, gitDir, workTreeDir string, opts
  ChecksumOptions) (Checksum, error)\<close>
\<close>

definition checksum ::
  "'w lock_api \<Rightarrow> 'w git_api \<Rightarrow> 'w fs_api \<Rightarrow> string \<Rightarrow> string \<Rightarrow> string \<Rightarrow> ChecksumOptions
     \<Rightarrow> 'w st \<Rightarrow> (error + ChecksumDescriptor) \<times> 'w st" where
  "checksum L G F repoPath gitDir workTreeDir opts s =
     (case PlainOpen G repoPath (world s) of
        Some err \<Rightarrow> (Inl (Errorf (''cannot open repo `'' @ repoPath @ ''`: '') err), s)
      | None \<Rightarrow>
          (case newHash G (Commit opts) of
             Inl err \<Rightarrow> (Inl (Errorf (''bad commit hash `'' @ Commit opts @ ''`: '') err), s)
           | Inr commitHash \<Rightarrow>
               (case CommitObject G repoPath commitHash (world s) of
                  Some err \<Rightarrow> (Inl (Errorf (''bad commit `'' @ Commit opts @ ''`: '') err), s)
                | None \<Rightarrow>
                    (case HasSubmodulesInCommit G repoPath commitHash (world s) of
                       (hasSubmodules, Some err) \<Rightarrow> (Inl err, s)
                     | (hasSubmodules, None) \<Rightarrow>
                         withWorkTreeLock L workTreeDir
                           (checksum_locked G F hasSubmodules gitDir workTreeDir opts) s))))"

text \<open>
  What \<open>checksum_paths\<close> writes for a path after the path itself: the octal mode and
  the content or link target.
\<close>

definition path_tail :: "'w fs_api \<Rightarrow> 'w \<Rightarrow> string \<Rightarrow> string \<Rightarrow> string" where
  "path_tail F w workTreeDir path =
     (case Lstat F (Join F workTreeDir path) w of
        Inl err \<Rightarrow> []
      | Inr mode \<Rightarrow>
          octal (unat mode) @
          (if IsRegular mode then
             (case Copy F (Join F workTreeDir path) w of Inl err \<Rightarrow> [] | Inr content \<Rightarrow> content)
           else if mode AND ModeSymlink \<noteq> 0 then
             (case Readlink F (Join F workTreeDir path) w of Inl err \<Rightarrow> [] | Inr l \<Rightarrow> l)
           else []))"

section \<open>Properties of traces\<close>

text \<open>
  A call of RenewPhase that returned an error, and a stage's report that it has to be
  reset.
\<close>

fun failed :: "event \<Rightarrow> bool" where
  "failed (EvLock n opts r) = (r \<noteq> None)"
| "failed (EvSyncDockerState i r) = (r \<noteq> None)"
| "failed (EvShouldBeReset im sn i r) = (snd r \<noteq> None)"
| "failed (EvUntag i r) = (r \<noteq> None)"
| "failed _ = False"

fun reports_reset :: "event \<Rightarrow> bool" where
  "reports_reset (EvShouldBeReset im sn i r) = (fst r \<and> snd r = None)"
| "reports_reset _ = False"

text \<open>
  The error RenewPhase returns for a call that failed: the call's own error, wrapped for
  \<^verbatim>\<open>lock.Lock\<close>.  A trace has stopped at a failure when its last call failed, none
  before it did, and the result is the error returned for that call.
\<close>

fun returned_error :: "event \<Rightarrow> error option" where
  "returned_error (EvLock n opts r) = map_option (Errorf (''failed to lock '' @ n @ '': '')) r"
| "returned_error (EvSyncDockerState i r) = r"
| "returned_error (EvShouldBeReset im sn i r) = snd r"
| "returned_error (EvUntag i r) = r"
| "returned_error _ = None"

definition stopped :: "event list \<Rightarrow> error option \<Rightarrow> bool" where
  "stopped tr r =
     (tr \<noteq> [] \<and> \<not> list_ex failed (butlast tr) \<and> failed (last tr) \<and> r = returned_error (last tr))"

text \<open>Every stage that reported reset had its image untagged, without an error.\<close>

definition untagged :: "event list \<Rightarrow> bool" where
  "untagged tr =
     (\<forall>im sn i. EvShouldBeReset im sn i (True, None) \<in> set tr \<longrightarrow> EvUntag i None \<in> set tr)"

definition renew_inv :: "event list \<Rightarrow> bool \<Rightarrow> bool" where
  "renew_inv tr reset =
     (\<not> list_ex failed tr \<and> (reset \<longleftrightarrow> list_ex reports_reset tr) \<and> untagged tr)"

text \<open>The timeouts of the lock acquisitions of a trace, in nanoseconds.\<close>

fun lock_timeouts :: "event list \<Rightarrow> int list" where
  "lock_timeouts [] = []"
| "lock_timeouts (EvLock n opts r # evs) = Timeout opts # lock_timeouts evs"
| "lock_timeouts (ev # evs) = lock_timeouts evs"

definition zero_timeouts :: "event list \<Rightarrow> bool" where
  "zero_timeouts tr = list_all (\<lambda>t. t = 0) (lock_timeouts tr)"





text \<open>
  What PrepareImagesPhase gives a stage image it configures: every label call carries
  exactly the five service labels; an image handed to \<^verbatim>\<open>PrepareImage\<close> has got
  them, and with a non-empty \<^verbatim>\<open>sshAuthSock\<close> the volume and the variable of the
  ssh agent; without one no volume or variable is added.
\<close>

definition service_labels :: "string \<Rightarrow> string \<Rightarrow> (string \<times> string) list" where
  "service_labels project version =
     [(''werf'', project), (''werf-version'', version), (''werf-cache-version'', ''33''),
      (''werf-image'', ''false''), (''werf-dev-mode'', ''false'')]"

definition prepared_with :: "string \<Rightarrow> string \<Rightarrow> string \<Rightarrow> event list \<Rightarrow> bool" where
  "prepared_with project version sock tr =
     ((\<forall>i ls. EvAddLabel i ls \<in> set tr \<longrightarrow> ls = service_labels project version) \<and>
      (\<forall>a b p i r. EvPrepareImage a b p i r \<in> set tr \<longrightarrow>
         EvAddLabel i (service_labels project version) \<in> set tr \<and>
         (sock \<noteq> [] \<longrightarrow>
            EvAddVolume i (sock @ '':/tmp/werf-ssh-agent'') \<in> set tr \<and>
            EvAddEnv i [(''SSH_AUTH_SOCK'', ''/tmp/werf-ssh-agent'')] \<in> set tr)) \<and>
      (\<forall>i v. EvAddVolume i v \<in> set tr \<longrightarrow> sock \<noteq> [] \<and> v = sock @ '':/tmp/werf-ssh-agent'') \<and>
      (\<forall>i e. EvAddEnv i e \<in> set tr \<longrightarrow>
         sock \<noteq> [] \<and> e = [(''SSH_AUTH_SOCK'', ''/tmp/werf-ssh-agent'')]))"

section \<open>Concrete inputs used by the witnesses\<close>

text \<open>
  A small repository: the world is the list of the commit hashes present in the clone at
  \<^verbatim>\<open>/clone\<close>, each written as 40 lower-case hexadecimal digits.  \<^verbatim>\<open>newHash\<close>
  decodes its argument as \<^verbatim>\<open>hex.DecodeString\<close> does (digits of either case, an even
  number of them) and copies the bytes into a hash of 20 bytes.
\<close>

definition demo_git :: "string list git_api" where
  "demo_git =
     \<lparr>PlainOpen = (\<lambda>p w. if p = ''/clone'' then None
                          else Some (ErrNew ''repository does not exist'')),
      newHash = (\<lambda>s. if \<not> set s \<subseteq> set ''0123456789abcdefABCDEF''
                      then Inl (ErrNew ''encoding/hex: invalid byte'')
                      else if odd (length s)
                      then Inl (ErrNew ''encoding/hex: odd length hex string'')
                      else Inr (take 40
                             (map (\<lambda>c. case map_of (zip ''ABCDEF'' ''abcdef'') c of
                                          Some d \<Rightarrow> d | None \<Rightarrow> c) s
                              @ replicate 40 CHR ''0''))),
      CommitObject = (\<lambda>p h w. if h \<in> set w then None else Some ErrObjectNotFound),
      CommitFile = (\<lambda>p h f w. Some ErrFileNotFound),
      PrepareWorkTree = (\<lambda>gitDir workTreeDir commit w. (None, w)),
      PrepareWorkTreeWithSubmodules = (\<lambda>gitDir workTreeDir commit w. (None, w)),
      IsFilePathValid = (\<lambda>pathFilter path. True)\<rparr>"

definition demo_gitPath :: GitPath where
  "demo_gitPath =
     \<lparr>GitPathName = ''app'',
      GitRepo = \<lparr>RepoName = ''origin'', Url = ''https://example.org/app.git'',
                 ClonePath = ''/clone'', IsDryRun = False\<rparr>\<rparr>"

text \<open>
  A small world for the phases: the stage images the process believes to exist, the
  images in the local store, the locks held, the images whose git commit is gone and the
  images the store refuses to untag.  The stand-in for SHA-256 returns its input.
\<close>

record demo_world =
  inMemory :: "string list"
  daemon :: "string list"
  held :: "string list"
  stale :: "string list"
  broken :: "string list"

definition demo_backend :: "demo_world backend" where
  "demo_backend =
     \<lparr>locks = \<lparr>Lock = (\<lambda>n opts w. (None, w\<lparr>held := held w @ [n]\<rparr>)),
               Unlock = (\<lambda>n w. w\<lparr>held := remove1 n (held w)\<rparr>)\<rparr>,
      images = \<lparr>IsExists = (\<lambda>img w. img \<in> set (inMemory w)),
                Inspect = (\<lambda>img w. \<lparr>ID = ''sha256:0'', Size = ''1'', Created = ''now''\<rparr>),
                SyncDockerState = (\<lambda>img w.
                   (None, w\<lparr>inMemory := (if img \<in> set (daemon w)
                                           then List.insert img (inMemory w)
                                           else removeAll img (inMemory w))\<rparr>)),
                Untag = (\<lambda>img w.
                   if img \<in> set (broken w) then (Some (ErrNew ''docker rmi failed''), w)
                   else (None, w\<lparr>inMemory := removeAll img (inMemory w),
                                  daemon := removeAll img (daemon w)\<rparr>)),
                Build = (\<lambda>opts img w. (None, w)),
                SaveInCache = (\<lambda>img w.
                   (None, w\<lparr>inMemory := List.insert img (inMemory w),
                             daemon := List.insert img (daemon w)\<rparr>)),
                AddLabel = (\<lambda>img labels w. w),
                AddVolume = (\<lambda>img v w. w),
                AddEnv = (\<lambda>img env w. w)\<rparr>,
      stageOps = \<lparr>IsEmpty = (\<lambda>st c prev w. (Inr (length (gitPaths st) = 0), w)),
                  GetDependencies = (\<lambda>st c prev w. (Inr ''deps'', w)),
                  AfterImageSyncDockerStateHook = (\<lambda>st c w. ((None, c), w)),
                  ShouldBeReset = (\<lambda>st img w. ((img \<in> set (stale w), None), w)),
                  PreRunHook = (\<lambda>st c w. (None, w)),
                  PrepareImage = (\<lambda>st c prev img w. (None, w))\<rparr>,
      conveyorOps = \<lparr>SetupBaseImage = (\<lambda>i c w. (''alpine:3.9'', w)),
                     PrepareBaseImage = (\<lambda>i c w. (None, w)),
                     GetOrCreateImage = (\<lambda>prev n w. w)\<rparr>,
      sha256 = (\<lambda>bytes. bytes),
      werfVersion = ''v1.0.0''\<rparr>"

definition demo_stage :: "string \<Rightarrow> string \<Rightarrow> string \<Rightarrow> stage" where
  "demo_stage img nm sig =
     \<lparr>stageName = nm, imageName = img, gitPaths = [demo_gitPath], signature = sig,
      stageImage = ''image-stage-demo:'' @ sig\<rparr>"

definition demo_image :: "string \<Rightarrow> stage list \<Rightarrow> Image" where
  "demo_image n sts = \<lparr>name = n, baseImage = ''alpine:3.9'', stages = sts\<rparr>"

definition demo_conveyor :: "string \<Rightarrow> Image list \<Rightarrow> Conveyor" where
  "demo_conveyor sock ims =
     \<lparr>imagesInOrder = ims, projectName = ''demo'', sshAuthSock = sock,
      imagesBySignature = Map.empty, buildingGitStage = Map.empty\<rparr>"

definition demo_world0 :: "string list \<Rightarrow> string list \<Rightarrow> string list \<Rightarrow> demo_world" where
  "demo_world0 present gone refused =
     \<lparr>inMemory = present, daemon = present, held = [], stale = gone, broken = refused\<rparr>"

definition demo_phase :: BuildPhase where
  "demo_phase = \<lparr>ImageBuildOptions = undefined\<rparr>"

text \<open>
  A flat work tree at \<^verbatim>\<open>/wt\<close> for the checksum: the world is the list of its
  files (name, mode, content), the only pattern with matches is \<^verbatim>\<open>*\<close>, the
  repository opens, has the commit and no submodules, and locks are free.
\<close>

type_synonym demo_tree = "(string \<times> FileMode \<times> string) list"

definition demo_fs :: "demo_tree fs_api" where
  "demo_fs =
     \<lparr>Glob = (\<lambda>pattern w. if pattern = ''/wt/*'' then Inr (map (\<lambda>f. ''/wt/'' @ fst f) w)
                           else Inr []),
      Lstat = (\<lambda>full w. case find (\<lambda>f. ''/wt/'' @ fst f = full) w of
                           None \<Rightarrow> Inl (ErrNew ''no such file or directory'')
                         | Some f \<Rightarrow> Inr (fst (snd f))),
      Walk = (\<lambda>root w. []),
      Rel = (\<lambda>base full. if take (length base + 1) full = base @ ''/''
                          then Inr (drop (length base + 1) full)
                          else Inl (ErrNew ''Rel: cannot make path relative'')),
      Join = (\<lambda>a b. if a = [] then b else a @ ''/'' @ b),
      Open = (\<lambda>full w. None),
      Copy = (\<lambda>full w. case find (\<lambda>f. ''/wt/'' @ fst f = full) w of
                          None \<Rightarrow> Inl (ErrNew ''no such file or directory'')
                        | Some f \<Rightarrow> Inr (snd (snd f))),
      Close = (\<lambda>full w. None),
      Readlink = (\<lambda>full w. Inl (ErrNew ''invalid argument''))\<rparr>"

definition demo_tree_git :: "demo_tree git_api" where
  "demo_tree_git =
     \<lparr>PlainOpen = (\<lambda>p w. None),
      newHash = (\<lambda>s. Inr s),
      CommitObject = (\<lambda>p h w. None),
      CommitFile = (\<lambda>p h f w. Some ErrFileNotFound),
      PrepareWorkTree = (\<lambda>gitDir workTreeDir commit w. (None, w)),
      PrepareWorkTreeWithSubmodules = (\<lambda>gitDir workTreeDir commit w. (None, w)),
      IsFilePathValid = (\<lambda>pathFilter path. True)\<rparr>"

definition demo_tree_locks :: "demo_tree lock_api" where
  "demo_tree_locks = \<lparr>Lock = (\<lambda>n opts w. (None, w)), Unlock = (\<lambda>n w. w)\<rparr>"

definition demo_opts :: "string list \<Rightarrow> ChecksumOptions" where
  "demo_opts patterns =
     \<lparr>BasePath = [], IncludePaths = [], ExcludePaths = [], Paths = patterns,
      Commit = ''c0ffee''\<rparr>"

definition demo_checksum :: "string list \<Rightarrow> demo_tree \<Rightarrow> error + ChecksumDescriptor" where
  "demo_checksum patterns tree =
     fst (checksum demo_tree_locks demo_tree_git demo_fs ''/repo'' ''/repo/.git'' ''/wt''
            (demo_opts patterns) \<lparr>world = tree, trace = []\<rparr>)"

text \<open>
  Two commits that differ in the name of one file: \<^verbatim>\<open>6447\<close> is renamed to
  \<^verbatim>\<open>7644\<close>; both files have mode 0644.
\<close>

definition tree_before :: demo_tree where
  "tree_before = [(''6447'', 0x1A4, ''76447644''), (''64476447'', 0x1A4, [])]"

definition tree_after :: demo_tree where
  "tree_after = [(''7644'', 0x1A4, ''76447644''), (''64476447'', 0x1A4, [])]"

section \<open>Commit existence: absence versus failure\<close>

lemma isCommitExists_absent:
  "isCommitExists G w repoPath commit = (False, None) \<longleftrightarrow>
     (PlainOpen G repoPath w = None \<and>
      (\<exists>h. newHash G commit = Inr h \<and> CommitObject G repoPath h w = Some ErrObjectNotFound))"
  by (auto simp: isCommitExists_def split: option.splits sum.splits)

lemma isCommitExists_found:
  "isCommitExists G w repoPath commit = (True, None) \<longleftrightarrow>
     (PlainOpen G repoPath w = None \<and>
      (\<exists>h. newHash G commit = Inr h \<and> CommitObject G repoPath h w = None))"
  by (auto simp: isCommitExists_def split: option.splits sum.splits)

lemma isCommitExists_failed:
  "(\<exists>e. isCommitExists G w repoPath commit = (False, Some e)) \<longleftrightarrow>
     (PlainOpen G repoPath w \<noteq> None \<or>
      (\<exists>e. newHash G commit = Inl e) \<or>
      (\<exists>h e. newHash G commit = Inr h \<and> CommitObject G repoPath h w = Some e \<and>
         e \<noteq> ErrObjectNotFound))"
  by (auto simp: isCommitExists_def split: option.splits sum.splits)

lemma isCommitExists_cases:
  "isCommitExists G w repoPath commit = (True, None) \<or>
   isCommitExists G w repoPath commit = (False, None) \<or>
   (\<exists>e. isCommitExists G w repoPath commit = (False, Some e))"
  by (auto simp: isCommitExists_def split: option.splits sum.splits)

text \<open>
  The loop of \<open>GitStage_ShouldBeReset\<close> is decided by the first git path whose commit check is
  not ``exists, no error''.
\<close>

lemma GitStage_ShouldBeReset_find:
  "GitStage_ShouldBeReset G lc w gps img =
     (case find (\<lambda>p. IsCommitExists G w (GitRepo p) (lc p img w) \<noteq> (True, None)) gps of
        None \<Rightarrow> (False, None)
      | Some gp \<Rightarrow>
          (case snd (IsCommitExists G w (GitRepo gp) (lc gp img w)) of
             Some err \<Rightarrow> (False, Some err)
           | None \<Rightarrow> (True, None)))"
proof (induction gps)
  case Nil
  show ?case by simp
next
  case (Cons g gps)
  obtain exist eo where r: "IsCommitExists G w (GitRepo g) (lc g img w) = (exist, eo)"
    by (cases "IsCommitExists G w (GitRepo g) (lc g img w)")
  have nte: "eo \<noteq> None \<Longrightarrow> \<not> exist"
    using r isCommitExists_cases[of G w "ClonePath (GitRepo g)" "lc g img w"]
    by (auto simp: IsCommitExists_def)
  show ?case
    using Cons.IH r nte by (cases eo; cases exist) auto
qed

lemma first_split_Cons:
  "(\<exists>pre x post. a # xs = pre @ x # post \<and> (\<forall>p \<in> set pre. A p) \<and> C x) \<longleftrightarrow>
     C a \<or> (A a \<and> (\<exists>pre x post. xs = pre @ x # post \<and> (\<forall>p \<in> set pre. A p) \<and> C x))"
  (is "?L \<longleftrightarrow> ?R")
proof
  assume ?L
  then obtain pre x post where e: "a # xs = pre @ x # post" and n: "\<forall>p \<in> set pre. A p"
    and c: "C x"
    by blast
  show ?R
  proof (cases pre)
    case Nil
    with e c show ?thesis by simp
  next
    case (Cons b pre')
    with e n c have "A a" and "xs = pre' @ x # post \<and> (\<forall>p \<in> set pre'. A p) \<and> C x"
      by simp_all
    then show ?thesis by blast
  qed
next
  assume r: ?R
  show ?L
  proof (cases "C a")
    case True
    then have "a # xs = [] @ a # xs \<and> (\<forall>p \<in> set []. A p) \<and> C a" by simp
    then show ?thesis by blast
  next
    case False
    with r obtain pre x post where "A a" "xs = pre @ x # post" "\<forall>p \<in> set pre. A p" "C x"
      by blast
    then have "a # xs = (a # pre) @ x # post \<and> (\<forall>p \<in> set (a # pre). A p) \<and> C x"
      by simp
    then show ?thesis by blast
  qed
qed

lemma GitStage_ShouldBeReset_reset_iff:
  "GitStage_ShouldBeReset G lc w gps img = (True, None) \<longleftrightarrow>
     (\<exists>pre gp post. gps = pre @ gp # post \<and>
        (\<forall>p \<in> set pre. isCommitExists G w (ClonePath (GitRepo p)) (lc p img w) = (True, None)) \<and>
        isCommitExists G w (ClonePath (GitRepo gp)) (lc gp img w) = (False, None))"
proof (induction gps)
  case Nil
  show ?case by simp
next
  case (Cons g gps)
  note sp = first_split_Cons[of g gps
      "\<lambda>p. isCommitExists G w (ClonePath (GitRepo p)) (lc p img w) = (True, None)"
      "\<lambda>p. isCommitExists G w (ClonePath (GitRepo p)) (lc p img w) = (False, None)"]
  from isCommitExists_cases[of G w "ClonePath (GitRepo g)" "lc g img w"] Cons.IH
  show ?case
    unfolding sp by (auto simp: IsCommitExists_def Let_def)
qed

lemma GitStage_ShouldBeReset_error_iff:
  "GitStage_ShouldBeReset G lc w gps img = (b, Some e) \<longleftrightarrow>
     \<not> b \<and> (\<exists>pre gp post. gps = pre @ gp # post \<and>
        (\<forall>p \<in> set pre. isCommitExists G w (ClonePath (GitRepo p)) (lc p img w) = (True, None)) \<and>
        isCommitExists G w (ClonePath (GitRepo gp)) (lc gp img w) = (False, Some e))"
proof (induction gps)
  case Nil
  show ?case by simp
next
  case (Cons g gps)
  note sp = first_split_Cons[of g gps
      "\<lambda>p. isCommitExists G w (ClonePath (GitRepo p)) (lc p img w) = (True, None)"
      "\<lambda>p. isCommitExists G w (ClonePath (GitRepo p)) (lc p img w) = (False, Some e)"]
  from isCommitExists_cases[of G w "ClonePath (GitRepo g)" "lc g img w"] Cons.IH
  show ?case
    unfolding sp by (auto simp: IsCommitExists_def Let_def)
qed

lemma GitStage_ShouldBeReset_keep_iff:
  "GitStage_ShouldBeReset G lc w gps img = (False, None) \<longleftrightarrow>
     (\<forall>p \<in> set gps. isCommitExists G w (ClonePath (GitRepo p)) (lc p img w) = (True, None))"
proof (induction gps)
  case Nil
  show ?case by simp
next
  case (Cons g gps)
  from isCommitExists_cases[of G w "ClonePath (GitRepo g)" "lc g img w"] Cons.IH
  show ?case
    by (auto simp: IsCommitExists_def Let_def)
qed

text \<open>
  Claim C10.  \<open>isCommitExists\<close> returns \<open>(false, nil)\<close> exactly when the repository
  opens, the hash parses and the lookup answers ``object not found''; it returns
  \<open>false\<close> with a non-nil error exactly when the repository cannot be opened, the
  hash cannot be parsed or the lookup fails in any other way; it returns \<open>(true, nil)\<close>
  exactly when the commit object is found.  \<open>GitStage.ShouldBeReset\<close> is decided by the
  first of its git paths whose commit check is not \<open>(true, nil)\<close>: it answers
  reset-required exactly when that check says the commit is genuinely missing, it returns
  an error, with \<open>false\<close>, exactly when that check failed, and then the error of that
  check, and it answers \<open>(false, nil)\<close> exactly when every commit exists.
\<close>

theorem C10_commit_absence_is_not_failure:
  "(isCommitExists G w repoPath commit = (False, None) \<longleftrightarrow>
      (PlainOpen G repoPath w = None \<and>
       (\<exists>h. newHash G commit = Inr h \<and>
            CommitObject G repoPath h w = Some ErrObjectNotFound)))
   \<and> ((\<exists>e. isCommitExists G w repoPath commit = (False, Some e)) \<longleftrightarrow>
      (PlainOpen G repoPath w \<noteq> None \<or>
       (\<exists>e. newHash G commit = Inl e) \<or>
       (\<exists>h e. newHash G commit = Inr h \<and> CommitObject G repoPath h w = Some e \<and>
          e \<noteq> ErrObjectNotFound)))
   \<and> (isCommitExists G w repoPath commit = (True, None) \<longleftrightarrow>
      (PlainOpen G repoPath w = None \<and>
       (\<exists>h. newHash G commit = Inr h \<and> CommitObject G repoPath h w = None)))
   \<and> (GitStage_ShouldBeReset G lc w gps img = (True, None) \<longleftrightarrow>
      (\<exists>pre gp post. gps = pre @ gp # post \<and>
         (\<forall>p \<in> set pre.
            isCommitExists G w (ClonePath (GitRepo p)) (lc p img w) = (True, None)) \<and>
         isCommitExists G w (ClonePath (GitRepo gp)) (lc gp img w) = (False, None)))
   \<and> (\<forall>b e. GitStage_ShouldBeReset G lc w gps img = (b, Some e) \<longleftrightarrow>
      \<not> b \<and> (\<exists>pre gp post. gps = pre @ gp # post \<and>
         (\<forall>p \<in> set pre.
            isCommitExists G w (ClonePath (GitRepo p)) (lc p img w) = (True, None)) \<and>
         isCommitExists G w (ClonePath (GitRepo gp)) (lc gp img w) = (False, Some e)))
   \<and> (GitStage_ShouldBeReset G lc w gps img = (False, None) \<longleftrightarrow>
      (\<forall>gp \<in> set gps.
         isCommitExists G w (ClonePath (GitRepo gp)) (lc gp img w) = (True, None)))"
proof -
  have e: "\<forall>b e. GitStage_ShouldBeReset G lc w gps img = (b, Some e) \<longleftrightarrow>
      \<not> b \<and> (\<exists>pre gp post. gps = pre @ gp # post \<and>
         (\<forall>p \<in> set pre.
            isCommitExists G w (ClonePath (GitRepo p)) (lc p img w) = (True, None)) \<and>
         isCommitExists G w (ClonePath (GitRepo gp)) (lc gp img w) = (False, Some e))"
    by (intro allI) (rule GitStage_ShouldBeReset_error_iff)
  show ?thesis
    apply (intro conjI)
         apply (rule isCommitExists_absent)
        apply (rule isCommitExists_failed)
       apply (rule isCommitExists_found)
      apply (rule GitStage_ShouldBeReset_reset_iff)
     apply (rule e)
    apply (rule GitStage_ShouldBeReset_keep_iff)
    done
qed

theorem C10_commit_absence_witness:
  "isCommitExists demo_git [''c0ffee0000000000000000000000000000000000''] ''/clone''
     ''decaf00000000000000000000000000000000000'' = (False, None)
   \<and> isCommitExists demo_git [''c0ffee0000000000000000000000000000000000''] ''/clone''
       ''C0FFEE'' = (True, None)
   \<and> (\<exists>e. isCommitExists demo_git [''c0ffee0000000000000000000000000000000000''] ''/clone''
            ''not-hex'' = (False, Some e))
   \<and> (\<exists>e. isCommitExists demo_git [''c0ffee0000000000000000000000000000000000''] ''/clone''
            ''c0ffee0'' = (False, Some e))
   \<and> (\<exists>e. isCommitExists demo_git [''c0ffee0000000000000000000000000000000000'']
            ''/elsewhere'' ''C0FFEE'' = (False, Some e))
   \<and> GitStage_ShouldBeReset demo_git
       (\<lambda>gp img w. if GitPathName gp = ''app'' then ''C0FFEE''
                    else ''decaf00000000000000000000000000000000000'')
       [''c0ffee0000000000000000000000000000000000'']
       [demo_gitPath, demo_gitPath\<lparr>GitPathName := ''lib''\<rparr>] ''img'' = (True, None)
   \<and> GitStage_ShouldBeReset demo_git
       (\<lambda>gp img w. if GitPathName gp = ''app'' then ''C0FFEE'' else ''not-hex'')
       [''c0ffee0000000000000000000000000000000000'']
       [demo_gitPath, demo_gitPath\<lparr>GitPathName := ''lib''\<rparr>] ''img''
     = (False, Some (Errorf ''bad commit hash `not-hex`: '' (ErrNew ''encoding/hex: invalid byte'')))
   \<and> GitStage_ShouldBeReset demo_git (\<lambda>gp img w. ''C0FFEE'')
       [''c0ffee0000000000000000000000000000000000'']
       [demo_gitPath, demo_gitPath\<lparr>GitPathName := ''lib''\<rparr>] ''img'' = (False, None)"
proof -
  let ?W = "[''c0ffee0000000000000000000000000000000000'']"
  let ?lib = "demo_gitPath\<lparr>GitPathName := ''lib''\<rparr>"
  note t = C10_commit_absence_is_not_failure
  have po: "PlainOpen demo_git ''/clone'' ?W = None"
    and pe: "PlainOpen demo_git ''/elsewhere'' ?W \<noteq> None"
    by (simp_all add: demo_git_def)
  have h1: "newHash demo_git ''decaf00000000000000000000000000000000000''
              = Inr ''decaf00000000000000000000000000000000000''"
    and h2: "newHash demo_git ''C0FFEE'' = Inr ''c0ffee0000000000000000000000000000000000''"
    and h3: "newHash demo_git ''not-hex'' = Inl (ErrNew ''encoding/hex: invalid byte'')"
    and h4: "newHash demo_git ''c0ffee0'' = Inl (ErrNew ''encoding/hex: odd length hex string'')"
    by code_simp+
  have c1: "CommitObject demo_git ''/clone'' ''decaf00000000000000000000000000000000000'' ?W
              = Some ErrObjectNotFound"
    and c2: "CommitObject demo_git ''/clone'' ''c0ffee0000000000000000000000000000000000'' ?W
              = None"
    by (simp_all add: demo_git_def)
  have 1: "isCommitExists demo_git ?W ''/clone'' ''decaf00000000000000000000000000000000000''
             = (False, None)"
    using t[of demo_git ?W "''/clone''" "''decaf00000000000000000000000000000000000''",
            THEN conjunct1]
    by (simp add: po h1 c1)
  have 2: "isCommitExists demo_git ?W ''/clone'' ''C0FFEE'' = (True, None)"
    using t[of demo_git ?W "''/clone''" "''C0FFEE''", THEN conjunct2, THEN conjunct2,
            THEN conjunct1]
    by (simp add: po h2 c2)
  have 3: "\<exists>e. isCommitExists demo_git ?W ''/clone'' ''not-hex'' = (False, Some e)"
    using t[of demo_git ?W "''/clone''" "''not-hex''", THEN conjunct2, THEN conjunct1]
    by (simp add: po h3)
  have 4: "\<exists>e. isCommitExists demo_git ?W ''/clone'' ''c0ffee0'' = (False, Some e)"
    using t[of demo_git ?W "''/clone''" "''c0ffee0''", THEN conjunct2, THEN conjunct1]
    by (simp add: po h4)
  have 5: "\<exists>e. isCommitExists demo_git ?W ''/elsewhere'' ''C0FFEE'' = (False, Some e)"
    using t[of demo_git ?W "''/elsewhere''" "''C0FFEE''", THEN conjunct2, THEN conjunct1] pe
    by simp
  have e3: "isCommitExists demo_git ?W ''/clone'' ''not-hex''
      = (False, Some (Errorf ''bad commit hash `not-hex`: '' (ErrNew ''encoding/hex: invalid byte'')))"
    by (simp add: isCommitExists_def po h3)
  have cp: "ClonePath (GitRepo demo_gitPath) = ''/clone''" "ClonePath (GitRepo ?lib) = ''/clone''"
    "GitPathName demo_gitPath = ''app''" "GitPathName ?lib = ''lib''"
    by (simp_all add: demo_gitPath_def)
  let ?lc6 = "\<lambda>gp (img :: string) (w :: string list).
       if GitPathName gp = ''app'' then ''C0FFEE''
       else ''decaf00000000000000000000000000000000000''"
  have 6: "GitStage_ShouldBeReset demo_git ?lc6 ?W [demo_gitPath, ?lib] ''img'' = (True, None)"
    apply (rule t[of demo_git ?W _ _ ?lc6 "[demo_gitPath, ?lib]" "''img''", THEN conjunct2,
                  THEN conjunct2, THEN conjunct2, THEN conjunct1, THEN iffD2])
    apply (rule exI[of _ "[demo_gitPath]"], rule exI[of _ ?lib], rule exI[of _ "[]"])
    apply (simp add: cp 1 2)
    done
  let ?lc7 = "\<lambda>gp (img :: string) (w :: string list).
       if GitPathName gp = ''app'' then ''C0FFEE'' else ''not-hex''"
  have 7: "GitStage_ShouldBeReset demo_git ?lc7 ?W [demo_gitPath, ?lib] ''img''
     = (False, Some (Errorf ''bad commit hash `not-hex`: '' (ErrNew ''encoding/hex: invalid byte'')))"
    apply (rule t[of demo_git ?W _ _ ?lc7 "[demo_gitPath, ?lib]" "''img''", THEN conjunct2,
                  THEN conjunct2, THEN conjunct2, THEN conjunct2, THEN conjunct1, rule_format,
                  THEN iffD2])
    apply (rule conjI, simp)
    apply (rule exI[of _ "[demo_gitPath]"], rule exI[of _ ?lib], rule exI[of _ "[]"])
    apply (simp add: cp 2 e3)
    done
  have 8: "GitStage_ShouldBeReset demo_git (\<lambda>gp img w. ''C0FFEE'') ?W [demo_gitPath, ?lib] ''img''
     = (False, None)"
    using t[of demo_git ?W _ _ "\<lambda>gp img w. ''C0FFEE''" "[demo_gitPath, ?lib]" "''img''",
            THEN conjunct2, THEN conjunct2, THEN conjunct2, THEN conjunct2, THEN conjunct2]
    by (simp add: cp 2)
  from 1 2 3 4 5 6 7 8 show ?thesis by (intro conjI)
qed

section \<open>Traces of calls\<close>

lemma call_trace: "call f ev s = (r, s') \<Longrightarrow> trace s' = trace s @ [ev r]"
  by (auto simp: call_def split: prod.splits)

lemma call_world: "call f ev s = (r, s') \<Longrightarrow> f (world s) = (r, world s')"
  by (auto simp: call_def split: prod.splits)

lemma trace_unlockLocks: "trace (unlockLocks B acq s) = trace s @ map EvUnlock acq"
  by (induction acq arbitrary: s) (auto simp: exec_def)

lemma trace_run_deferred: "trace (run_deferred B ds s) = trace s @ map EvUnlock (concat ds)"
  by (induction ds arbitrary: s) (auto simp: trace_unlockLocks)

lemmas demo_defs =
  demo_backend_def demo_stage_def demo_conveyor_def demo_image_def demo_world0_def
  demo_gitPath_def demo_phase_def call_def exec_def emit_def Let_def

section \<open>RenewPhase: the result and the untagging\<close>

lemma renew_inv_unlocks: "renew_inv (tr @ map EvUnlock xs) reset = renew_inv tr reset"
  by (auto simp: renew_inv_def untagged_def list_ex_iff)

lemma failed_unlocks: "list_ex failed (tr @ map EvUnlock xs) = list_ex failed tr"
  by (auto simp: list_ex_iff)

lemma RenewPhase_lock_inv:
  "RenewPhase_lock B c sts s = (r, s') \<Longrightarrow>
     (list_ex failed (trace s) \<longrightarrow> list_ex failed (trace s')) \<and>
     (r \<noteq> None \<longrightarrow> list_ex failed (trace s')) \<and>
     (r = None \<and> renew_inv (trace s) reset \<longrightarrow> renew_inv (trace s') reset)"
proof (induction sts arbitrary: s)
  case Nil
  then show ?case by simp
next
  case (Cons st rest)
  show ?case
  proof (cases "IsExists (images B) (GetImage st) (world s)")
    case False
    with Cons.prems have "RenewPhase_lock B c rest s = (r, s')" by simp
    from Cons.IH[OF this] show ?thesis .
  next
    case True
    let ?n = "projectName c @ ''.image.'' @ GetImage st"
    obtain r1 s1 where
      l: "call (Lock (locks B) ?n \<lparr>Timeout = 0\<rparr>) (EvLock ?n \<lparr>Timeout = 0\<rparr>) s = (r1, s1)"
      by fastforce
    note t1 = call_trace[OF l]
    show ?thesis
    proof (cases r1)
      case (Some err)
      with Cons.prems True l t1 show ?thesis by (auto simp: Let_def)
    next
      case None
      obtain r2 s2 where
        y: "call (SyncDockerState (images B) (GetImage st)) (EvSyncDockerState (GetImage st)) s1
              = (r2, s2)"
        by fastforce
      note t2 = call_trace[OF y]
      show ?thesis
      proof (cases r2)
        case (Some err)
        with Cons.prems True l None y t1 t2 show ?thesis by (auto simp: Let_def)
      next
        case n2: None
        with Cons.prems True l None y have "RenewPhase_lock B c rest s2 = (r, s')"
          by (simp add: Let_def)
        from Cons.IH[OF this] t1 t2 None n2 show ?thesis
          by (auto simp: renew_inv_def untagged_def)
      qed
    qed
  qed
qed

lemma RenewPhase_check_inv:
  "RenewPhase_check B im sts reset s = (r, reset', s') \<Longrightarrow>
     (list_ex failed (trace s) \<longrightarrow> list_ex failed (trace s')) \<and>
     (r \<noteq> None \<longrightarrow> list_ex failed (trace s')) \<and>
     (r = None \<and> renew_inv (trace s) reset \<longrightarrow> renew_inv (trace s') reset')"
proof (induction sts arbitrary: s reset)
  case Nil
  then show ?case by simp
next
  case (Cons st rest)
  show ?case
  proof (cases "IsExists (images B) (GetImage st) (world s)")
    case False
    with Cons.prems have "RenewPhase_check B im rest reset s = (r, reset', s')" by simp
    from Cons.IH[OF this] show ?thesis .
  next
    case True
    let ?i = "GetImage st"
    obtain b eo s1 where q: "call (ShouldBeReset (stageOps B) st ?i)
        (EvShouldBeReset (imageName st) (stageName st) ?i) s = ((b, eo), s1)"
      by (metis surj_pair)
    note t1 = call_trace[OF q]
    show ?thesis
    proof (cases eo)
      case (Some err)
      with Cons.prems True q t1 show ?thesis by (auto simp: Let_def)
    next
      case None
      show ?thesis
      proof (cases b)
        case False
        with Cons.prems True q None
        have "RenewPhase_check B im rest reset s1 = (r, reset', s')"
          by (simp add: Let_def)
        from Cons.IH[OF this] t1 None False show ?thesis
          by (auto simp: renew_inv_def untagged_def)
      next
        case b: True
        let ?s2 = "emit (EvLog ''LogServiceF''
                     [''Untag '', ?i, '' for '', GetName im, ''/'', stageName st]) s1"
        obtain r3 s3 where u: "call (Untag (images B) ?i) (EvUntag ?i) ?s2 = (r3, s3)"
          by fastforce
        note t3 = call_trace[OF u]
        show ?thesis
        proof (cases r3)
          case (Some err)
          with Cons.prems True q None b u t1 t3 show ?thesis
            by (auto simp: Let_def emit_def)
        next
          case n3: None
          with Cons.prems True q None b u
          have "RenewPhase_check B im rest True s3 = (r, reset', s')"
            by (simp add: Let_def)
          from Cons.IH[OF this] t1 t3 None b n3 show ?thesis
            by (auto simp: renew_inv_def untagged_def emit_def)
        qed
      qed
    qed
  qed
qed

lemma RenewPhase_images_inv:
  "RenewPhase_images B c ims reset deferred s = (r, s') \<Longrightarrow>
     (list_ex failed (trace s) \<longrightarrow> list_ex failed (trace s')) \<and>
     (renew_inv (trace s) reset \<and> r = None \<longrightarrow> \<not> list_ex failed (trace s')) \<and>
     (renew_inv (trace s) reset \<and> \<not> list_ex failed (trace s') \<longrightarrow>
        (r = None \<or> r = Some ConveyorShouldBeResetError) \<and>
        renew_inv (trace s') (r = Some ConveyorShouldBeResetError))"
proof (induction ims arbitrary: s reset deferred)
  case Nil
  then have r: "r = (if reset then Some ConveyorShouldBeResetError else None)"
    and s': "trace s' = trace s @ map EvUnlock (concat deferred)"
    by (auto simp: trace_run_deferred)
  show ?case
    unfolding s' renew_inv_unlocks failed_unlocks using r
    by (auto simp: renew_inv_def)
next
  case (Cons im rest)
  obtain r1 s1 where l: "RenewPhase_lock B c (GetStages im) s = (r1, s1)"
    by fastforce
  note li = RenewPhase_lock_inv[OF l, of reset]
  show ?case
  proof (cases r1)
    case (Some err)
    with Cons.prems l li show ?thesis
      by (auto simp: trace_run_deferred failed_unlocks)
  next
    case None
    obtain r2 reset2 s2 where
      k: "RenewPhase_check B im (GetStages im) reset s1 = (r2, reset2, s2)"
      by (metis surj_pair)
    note ki = RenewPhase_check_inv[OF k]
    show ?thesis
    proof (cases r2)
      case (Some err)
      with Cons.prems l None k li ki show ?thesis
        by (auto simp: trace_run_deferred failed_unlocks)
    next
      case n2: None
      with Cons.prems l None k
      have "RenewPhase_images B c rest reset2 ([] # deferred) s2 = (r, s')"
        by simp
      from Cons.IH[OF this] li ki None n2 show ?thesis
        by auto
    qed
  qed
qed

lemma stopped_snoc:
  "\<not> list_ex failed tr \<Longrightarrow> failed ev \<Longrightarrow> r = returned_error ev \<Longrightarrow> stopped (tr @ [ev]) r"
  by (simp add: stopped_def butlast_append)

lemma failed_returned: "failed ev \<longleftrightarrow> returned_error ev \<noteq> None"
  by (cases ev) auto

lemma run_deferred_empty: "set deferred \<subseteq> {[]} \<Longrightarrow> run_deferred B deferred s = s"
  by (induction deferred arbitrary: s) auto

lemma RenewPhase_lock_stop:
  "RenewPhase_lock B c sts s = (r, s') \<Longrightarrow> \<not> list_ex failed (trace s) \<Longrightarrow>
     (if r = None then \<not> list_ex failed (trace s') else stopped (trace s') r)"
proof (induction sts arbitrary: s)
  case Nil
  then show ?case by simp
next
  case (Cons st rest)
  show ?case
  proof (cases "IsExists (images B) (GetImage st) (world s)")
    case False
    with Cons.prems have "RenewPhase_lock B c rest s = (r, s')" by simp
    from Cons.IH[OF this Cons.prems(2)] show ?thesis .
  next
    case True
    let ?n = "projectName c @ ''.image.'' @ GetImage st"
    obtain r1 s1 where
      l: "call (Lock (locks B) ?n \<lparr>Timeout = 0\<rparr>) (EvLock ?n \<lparr>Timeout = 0\<rparr>) s = (r1, s1)"
      by fastforce
    note t1 = call_trace[OF l]
    show ?thesis
    proof (cases r1)
      case (Some err)
      with Cons.prems True l have "r = Some (Errorf (''failed to lock '' @ ?n @ '': '') err)"
        and "s' = s1"
        by (auto simp: Let_def)
      with t1 Some Cons.prems(2) show ?thesis
        by (simp add: stopped_def butlast_append)
    next
      case None
      obtain r2 s2 where
        y: "call (SyncDockerState (images B) (GetImage st)) (EvSyncDockerState (GetImage st)) s1
              = (r2, s2)"
        by fastforce
      note t2 = call_trace[OF y]
      show ?thesis
      proof (cases r2)
        case (Some err)
        with Cons.prems True l None y have "r = Some err" and "s' = s2"
          by (auto simp: Let_def)
        with t1 t2 None Some Cons.prems(2) show ?thesis
          by (simp add: stopped_def butlast_append)
      next
        case n2: None
        with Cons.prems True l None y have rec: "RenewPhase_lock B c rest s2 = (r, s')"
          by (simp add: Let_def)
        have "\<not> list_ex failed (trace s2)"
          using t1 t2 None n2 Cons.prems(2) by simp
        from Cons.IH[OF rec this] show ?thesis .
      qed
    qed
  qed
qed

lemma RenewPhase_check_stop:
  "RenewPhase_check B im sts reset s = (r, reset', s') \<Longrightarrow> \<not> list_ex failed (trace s) \<Longrightarrow>
     (if r = None then \<not> list_ex failed (trace s') else stopped (trace s') r)"
proof (induction sts arbitrary: s reset)
  case Nil
  then show ?case by simp
next
  case (Cons st rest)
  show ?case
  proof (cases "IsExists (images B) (GetImage st) (world s)")
    case False
    with Cons.prems have "RenewPhase_check B im rest reset s = (r, reset', s')" by simp
    from Cons.IH[OF this Cons.prems(2)] show ?thesis .
  next
    case True
    let ?i = "GetImage st"
    obtain b eo s1 where q: "call (ShouldBeReset (stageOps B) st ?i)
        (EvShouldBeReset (imageName st) (stageName st) ?i) s = ((b, eo), s1)"
      by (metis surj_pair)
    note t1 = call_trace[OF q]
    show ?thesis
    proof (cases eo)
      case (Some err)
      with Cons.prems True q have "r = Some err" and "s' = s1"
        by (auto simp: Let_def)
      with t1 Some Cons.prems(2) show ?thesis
        by (simp add: stopped_def butlast_append)
    next
      case None
      show ?thesis
      proof (cases b)
        case False
        with Cons.prems True q None
        have rec: "RenewPhase_check B im rest reset s1 = (r, reset', s')"
          by (simp add: Let_def)
        have "\<not> list_ex failed (trace s1)"
          using t1 None Cons.prems(2) by simp
        from Cons.IH[OF rec this] show ?thesis .
      next
        case b: True
        let ?s2 = "emit (EvLog ''LogServiceF''
                     [''Untag '', ?i, '' for '', GetName im, ''/'', stageName st]) s1"
        obtain r3 s3 where u: "call (Untag (images B) ?i) (EvUntag ?i) ?s2 = (r3, s3)"
          by fastforce
        note t3 = call_trace[OF u]
        show ?thesis
        proof (cases r3)
          case (Some err)
          with Cons.prems True q None b u have "r = Some err" and "s' = s3"
            by (auto simp: Let_def)
          with t1 t3 None Some Cons.prems(2) show ?thesis
            by (simp add: stopped_def emit_def butlast_append)
        next
          case n3: None
          with Cons.prems True q None b u
          have rec: "RenewPhase_check B im rest True s3 = (r, reset', s')"
            by (simp add: Let_def)
          have "\<not> list_ex failed (trace s3)"
            using t1 t3 None n3 Cons.prems(2) by (simp add: emit_def)
          from Cons.IH[OF rec this] show ?thesis .
        qed
      qed
    qed
  qed
qed

lemma RenewPhase_images_stop:
  "RenewPhase_images B c ims reset deferred s = (r, s') \<Longrightarrow> \<not> list_ex failed (trace s) \<Longrightarrow>
     set deferred \<subseteq> {[]} \<Longrightarrow> list_ex failed (trace s') \<Longrightarrow> stopped (trace s') r"
proof (induction ims arbitrary: s reset deferred)
  case Nil
  then show ?case by (simp add: run_deferred_empty)
next
  case (Cons im rest)
  obtain r1 s1 where l: "RenewPhase_lock B c (GetStages im) s = (r1, s1)"
    by fastforce
  note ls = RenewPhase_lock_stop[OF l Cons.prems(2)]
  show ?case
  proof (cases r1)
    case (Some err)
    with Cons.prems l have "r = r1" and "s' = s1"
      by (auto simp: run_deferred_empty)
    with ls Some show ?thesis by simp
  next
    case None
    obtain r2 reset2 s2 where
      k: "RenewPhase_check B im (GetStages im) reset s1 = (r2, reset2, s2)"
      by (metis surj_pair)
    from ls None have nf1: "\<not> list_ex failed (trace s1)" by simp
    note ks = RenewPhase_check_stop[OF k nf1]
    show ?thesis
    proof (cases r2)
      case (Some err)
      with Cons.prems l None k have "r = r2" and "s' = s2"
        by (auto simp: run_deferred_empty)
      with ks Some show ?thesis by simp
    next
      case n2: None
      with Cons.prems l None k
      have rec: "RenewPhase_images B c rest reset2 ([] # deferred) s2 = (r, s')"
        by simp
      from ks n2 have nf2: "\<not> list_ex failed (trace s2)" by simp
      from Cons.prems(3) have "set ([] # deferred) \<subseteq> {[]}" by simp
      from Cons.IH[OF rec nf2 this Cons.prems(4)] show ?thesis .
    qed
  qed
qed

lemma RenewPhase_lock_ext: "RenewPhase_lock B c sts s = (r, s') \<Longrightarrow> \<exists>tl. trace s' = trace s @ tl"
proof (induction sts arbitrary: s)
  case Nil
  then show ?case by simp
next
  case (Cons st rest)
  show ?case
  proof (cases "IsExists (images B) (GetImage st) (world s)")
    case False
    with Cons.prems have "RenewPhase_lock B c rest s = (r, s')" by simp
    from Cons.IH[OF this] show ?thesis .
  next
    case True
    let ?n = "projectName c @ ''.image.'' @ GetImage st"
    obtain r1 s1 where
      l: "call (Lock (locks B) ?n \<lparr>Timeout = 0\<rparr>) (EvLock ?n \<lparr>Timeout = 0\<rparr>) s = (r1, s1)"
      by fastforce
    note t1 = call_trace[OF l]
    show ?thesis
    proof (cases r1)
      case (Some err)
      with Cons.prems True l t1 show ?thesis by (auto simp: Let_def)
    next
      case None
      obtain r2 s2 where
        y: "call (SyncDockerState (images B) (GetImage st)) (EvSyncDockerState (GetImage st)) s1
              = (r2, s2)"
        by fastforce
      note t2 = call_trace[OF y]
      show ?thesis
      proof (cases r2)
        case (Some err)
        with Cons.prems True l None y t1 t2 show ?thesis by (auto simp: Let_def)
      next
        case n2: None
        with Cons.prems True l None y have "RenewPhase_lock B c rest s2 = (r, s')"
          by (simp add: Let_def)
        from Cons.IH[OF this] t1 t2 show ?thesis by auto
      qed
    qed
  qed
qed

lemma RenewPhase_check_ext:
  "RenewPhase_check B im sts reset s = (r, reset', s') \<Longrightarrow> \<exists>tl. trace s' = trace s @ tl"
proof (induction sts arbitrary: s reset)
  case Nil
  then show ?case by simp
next
  case (Cons st rest)
  show ?case
  proof (cases "IsExists (images B) (GetImage st) (world s)")
    case False
    with Cons.prems have "RenewPhase_check B im rest reset s = (r, reset', s')" by simp
    from Cons.IH[OF this] show ?thesis .
  next
    case True
    let ?i = "GetImage st"
    obtain b eo s1 where q: "call (ShouldBeReset (stageOps B) st ?i)
        (EvShouldBeReset (imageName st) (stageName st) ?i) s = ((b, eo), s1)"
      by (metis surj_pair)
    note t1 = call_trace[OF q]
    show ?thesis
    proof (cases eo)
      case (Some err)
      with Cons.prems True q t1 show ?thesis by (auto simp: Let_def)
    next
      case None
      show ?thesis
      proof (cases b)
        case False
        with Cons.prems True q None
        have "RenewPhase_check B im rest reset s1 = (r, reset', s')"
          by (simp add: Let_def)
        from Cons.IH[OF this] t1 show ?thesis by auto
      next
        case b: True
        let ?s2 = "emit (EvLog ''LogServiceF''
                     [''Untag '', ?i, '' for '', GetName im, ''/'', stageName st]) s1"
        obtain r3 s3 where u: "call (Untag (images B) ?i) (EvUntag ?i) ?s2 = (r3, s3)"
          by fastforce
        note t3 = call_trace[OF u]
        show ?thesis
        proof (cases r3)
          case (Some err)
          with Cons.prems True q None b u t1 t3 show ?thesis
            by (auto simp: Let_def emit_def)
        next
          case n3: None
          with Cons.prems True q None b u
          have "RenewPhase_check B im rest True s3 = (r, reset', s')"
            by (simp add: Let_def)
          from Cons.IH[OF this] t1 t3 show ?thesis
            by (auto simp: emit_def)
        qed
      qed
    qed
  qed
qed

lemma RenewPhase_images_ext:
  "RenewPhase_images B c ims reset deferred s = (r, s') \<Longrightarrow> \<exists>tl. trace s' = trace s @ tl"
proof (induction ims arbitrary: s reset deferred)
  case Nil
  then show ?case by (auto simp: trace_run_deferred)
next
  case (Cons im rest)
  obtain r1 s1 where l: "RenewPhase_lock B c (GetStages im) s = (r1, s1)"
    by fastforce
  note le = RenewPhase_lock_ext[OF l]
  show ?case
  proof (cases r1)
    case (Some err)
    with Cons.prems l le show ?thesis
      by (auto simp: trace_run_deferred)
  next
    case None
    obtain r2 reset2 s2 where
      k: "RenewPhase_check B im (GetStages im) reset s1 = (r2, reset2, s2)"
      by (metis surj_pair)
    note ke = RenewPhase_check_ext[OF k]
    show ?thesis
    proof (cases r2)
      case (Some err)
      with Cons.prems l None k le ke show ?thesis
        by (auto simp: trace_run_deferred)
    next
      case n2: None
      with Cons.prems l None k
      have "RenewPhase_images B c rest reset2 ([] # deferred) s2 = (r, s')"
        by simp
      from Cons.IH[OF this] le ke show ?thesis by auto
    qed
  qed
qed

lemma RenewPhase_check_append:
  "RenewPhase_check B im (xs @ ys) reset s =
     (case RenewPhase_check B im xs reset s of
        (Some err, reset1, s1) \<Rightarrow> (Some err, reset1, s1)
      | (None, reset1, s1) \<Rightarrow> RenewPhase_check B im ys reset1 s1)"
  by (induction xs arbitrary: reset s)
     (auto simp: Let_def split: prod.splits option.splits)

lemma RenewPhase_check_asks:
  assumes "IsExists (images B) (GetImage st) (world s)"
    and "RenewPhase_check B im (st # rest) reset s = (r, reset', s')"
  shows "\<exists>tl. trace s' = trace s @
           EvShouldBeReset (imageName st) (stageName st) (GetImage st)
             (fst (ShouldBeReset (stageOps B) st (GetImage st) (world s))) # tl"
proof -
  let ?i = "GetImage st"
  obtain b eo s1 where q: "call (ShouldBeReset (stageOps B) st ?i)
      (EvShouldBeReset (imageName st) (stageName st) ?i) s = ((b, eo), s1)"
    by (metis surj_pair)
  note t1 = call_trace[OF q]
  from call_world[OF q] have a: "fst (ShouldBeReset (stageOps B) st ?i (world s)) = (b, eo)"
    by simp
  show ?thesis
  proof (cases eo)
    case (Some err)
    with assms q t1 a show ?thesis by (auto simp: Let_def)
  next
    case None
    show ?thesis
    proof (cases b)
      case False
      with assms q None
      have "RenewPhase_check B im rest reset s1 = (r, reset', s')"
        by (simp add: Let_def)
      from RenewPhase_check_ext[OF this] t1 a show ?thesis by auto
    next
      case b: True
      let ?s2 = "emit (EvLog ''LogServiceF''
                   [''Untag '', ?i, '' for '', GetName im, ''/'', stageName st]) s1"
      obtain r3 s3 where u: "call (Untag (images B) ?i) (EvUntag ?i) ?s2 = (r3, s3)"
        by fastforce
      note t3 = call_trace[OF u]
      show ?thesis
      proof (cases r3)
        case (Some err)
        with assms q None b u t1 t3 a show ?thesis
          by (auto simp: Let_def emit_def)
      next
        case n3: None
        with assms q None b u
        have "RenewPhase_check B im rest True s3 = (r, reset', s')"
          by (simp add: Let_def)
        from RenewPhase_check_ext[OF this] t1 t3 a show ?thesis
          by (auto simp: emit_def)
      qed
    qed
  qed
qed

lemma RenewPhase_lock_conveyor:
  "RenewPhase_lock B (c\<lparr>imagesInOrder := x\<rparr>) sts s = RenewPhase_lock B c sts s"
  by (induction sts arbitrary: s) (auto simp: Let_def split: prod.splits option.splits)

lemma RenewPhase_images_conveyor:
  "RenewPhase_images B (c\<lparr>imagesInOrder := x\<rparr>) ims reset deferred s =
   RenewPhase_images B c ims reset deferred s"
  by (induction ims arbitrary: reset deferred s)
     (auto simp: RenewPhase_lock_conveyor split: prod.splits option.splits)

lemma RenewPhase_images_deferred:
  "set d1 \<subseteq> {[]} \<Longrightarrow> set d2 \<subseteq> {[]} \<Longrightarrow>
     RenewPhase_images B c ims reset d1 s = RenewPhase_images B c ims reset d2 s"
proof (induction ims arbitrary: reset d1 d2 s)
  case Nil
  then show ?case by (simp add: run_deferred_empty)
next
  case (Cons im rest)
  from Cons.prems have e: "set ([] # d1) \<subseteq> {[]}" "set ([] # d2) \<subseteq> {[]}" by auto
  from Cons.IH[OF e] Cons.prems show ?case
    by (auto simp: run_deferred_empty split: prod.splits option.splits)
qed

lemma RenewPhase_images_append:
  assumes "RenewPhase_images B c xs reset [] s = (r1, s1)"
    and "\<not> list_ex failed (trace s1)"
  shows "RenewPhase_images B c (xs @ ys) reset [] s =
         RenewPhase_images B c ys (r1 \<noteq> None) [] s1"
  using assms
proof (induction xs arbitrary: reset s)
  case Nil
  then show ?case by auto
next
  case (Cons im rest)
  obtain ra sa where l: "RenewPhase_lock B c (GetStages im) s = (ra, sa)"
    by fastforce
  note li = RenewPhase_lock_inv[OF l, of reset]
  show ?case
  proof (cases ra)
    case (Some err)
    with Cons.prems l li show ?thesis by auto
  next
    case None
    obtain rb reset2 sb where
      k: "RenewPhase_check B im (GetStages im) reset sa = (rb, reset2, sb)"
      by (metis surj_pair)
    note ki = RenewPhase_check_inv[OF k]
    show ?thesis
    proof (cases rb)
      case (Some err)
      with Cons.prems l None k ki show ?thesis by auto
    next
      case n2: None
      have d: "RenewPhase_images B c zs reset2 [[]] sb = RenewPhase_images B c zs reset2 [] sb"
        for zs
        by (rule RenewPhase_images_deferred) auto
      from Cons.prems(1) l None k n2
      have "RenewPhase_images B c rest reset2 [] sb = (r1, s1)"
        by (simp add: d)
      from Cons.IH[OF this Cons.prems(2)] l None k n2 show ?thesis
        by (simp add: d)
    qed
  qed
qed

lemma RenewPhase_run_asks:
  assumes run: "RenewPhase_run B c s0 = (r, s')"
    and ims: "imagesInOrder c = ims1 @ im # ims2"
    and sts: "stages im = before @ st # rest"
    and pre: "RenewPhase_run B (c\<lparr>imagesInOrder := ims1\<rparr>) s0 = (r1, s1)"
    and nf: "\<not> list_ex failed (trace s1)"
    and lk: "RenewPhase_lock B c (stages im) s1 = (None, s2)"
    and ck: "RenewPhase_check B im before (r1 \<noteq> None) s2 = (None, reset3, s3)"
    and ex: "IsExists (images B) (GetImage st) (world s3)"
  shows "\<exists>tl. trace s' = trace s3 @
           EvShouldBeReset (imageName st) (stageName st) (GetImage st)
             (fst (ShouldBeReset (stageOps B) st (GetImage st) (world s3))) # tl"
proof -
  from pre have p: "RenewPhase_images B c ims1 False [] s0 = (r1, s1)"
    by (simp add: RenewPhase_run_def RenewPhase_images_conveyor)
  from run ims RenewPhase_images_append[OF p nf, of "im # ims2"]
  have a: "RenewPhase_images B c (im # ims2) (r1 \<noteq> None) [] s1 = (r, s')"
    by (simp add: RenewPhase_run_def)
  obtain rb reset4 s4 where
    k: "RenewPhase_check B im (st # rest) reset3 s3 = (rb, reset4, s4)"
    by (metis surj_pair)
  from RenewPhase_check_asks[OF ex k] obtain tl where
    t4: "trace s4 = trace s3 @
           EvShouldBeReset (imageName st) (stageName st) (GetImage st)
             (fst (ShouldBeReset (stageOps B) st (GetImage st) (world s3))) # tl"
    by blast
  from ck k sts have full: "RenewPhase_check B im (stages im) (r1 \<noteq> None) s2 = (rb, reset4, s4)"
    by (simp add: RenewPhase_check_append)
  show ?thesis
  proof (cases rb)
    case (Some err)
    with a lk full have "s' = s4" by simp
    with t4 show ?thesis by blast
  next
    case None
    with a lk full have "RenewPhase_images B c ims2 reset4 [[]] s4 = (r, s')"
      by simp
    from RenewPhase_images_ext[OF this] t4 show ?thesis by auto
  qed
qed

lemma RenewPhase_run_passes:
  assumes ck: "RenewPhase_check B im before reset s2 = (None, reset3, s3)"
    and ex: "\<not> IsExists (images B) (GetImage st) (world s3)"
  shows "RenewPhase_check B im (before @ st # rest) reset s2 = RenewPhase_check B im rest reset3 s3"
  using assms by (simp add: RenewPhase_check_append)

text \<open>
  Claim C4, as stated, fails where the store refuses to untag: the stage reports that
  it has to be reset, \<^verbatim>\<open>img.Untag()\<close> fails, and RenewPhase returns that error
  and not the sentinel.
\<close>

theorem C4_untag_failure_counterexample:
  "fst (RenewPhase_run demo_backend
          (demo_conveyor [] [demo_image ''app'' [demo_stage ''app'' ''gitArchive'' ''aa'']])
          \<lparr>world = demo_world0 [''image-stage-demo:aa''] [''image-stage-demo:aa'']
                     [''image-stage-demo:aa''],
           trace = []\<rparr>)
     = Some (ErrNew ''docker rmi failed'')
   \<and> Some (ErrNew ''docker rmi failed'') \<noteq> Some ConveyorShouldBeResetError
   \<and> list_ex reports_reset
       (trace (snd (RenewPhase_run demo_backend
          (demo_conveyor [] [demo_image ''app'' [demo_stage ''app'' ''gitArchive'' ''aa'']])
          \<lparr>world = demo_world0 [''image-stage-demo:aa''] [''image-stage-demo:aa'']
                     [''image-stage-demo:aa''],
           trace = []\<rparr>)))"
  by (simp add: demo_defs RenewPhase_run_def ConveyorShouldBeResetError_def)

text \<open>
  Claim C4, amended.  On a run of RenewPhase in which no \<^verbatim>\<open>lock.Lock\<close>,
  \<^verbatim>\<open>SyncDockerState\<close>, \<^verbatim>\<open>ShouldBeReset\<close> or \<^verbatim>\<open>Untag\<close> call returns an
  error, the phase returns the sentinel if and only if at least one stage reports that
  it has to be reset, it returns nil if and only if none does, and the image of every
  stage that reported so was untagged before the phase returned.  When one of those calls
  returns an error, it is the last call the phase makes and the only one that failed, and
  the phase returns the error of that call (wrapped for \<^verbatim>\<open>lock.Lock\<close>), not the
  sentinel, also after a stage has reported reset.  The stages are asked in the order of
  the lists: when the check pass, the images before and the lock pass of the image done
  without a failure, comes to a stage, it asks \<^verbatim>\<open>ShouldBeReset\<close> of the stage if
  its image exists at that moment, and passes it over without a call if not.
\<close>

theorem C4_renew_result:
  assumes "RenewPhase_run B c \<lparr>world = w, trace = []\<rparr> = (r, s')"
  shows "(\<not> list_ex failed (trace s') \<longrightarrow>
            (r = Some ConveyorShouldBeResetError \<longleftrightarrow> list_ex reports_reset (trace s')) \<and>
            (r = None \<longleftrightarrow> \<not> list_ex reports_reset (trace s')) \<and>
            (\<forall>im sn i. EvShouldBeReset im sn i (True, None) \<in> set (trace s') \<longrightarrow>
               EvUntag i None \<in> set (trace s')))
         \<and> (list_ex failed (trace s') \<longrightarrow>
              r \<noteq> None \<and> trace s' \<noteq> [] \<and> failed (last (trace s')) \<and>
              \<not> list_ex failed (butlast (trace s')) \<and>
              r = returned_error (last (trace s')))
         \<and> (\<forall>ims1 im ims2 before st rest r1 s1 s2 reset3 s3.
              imagesInOrder c = ims1 @ im # ims2 \<and> stages im = before @ st # rest \<and>
              RenewPhase_run B (c\<lparr>imagesInOrder := ims1\<rparr>) \<lparr>world = w, trace = []\<rparr> = (r1, s1) \<and>
              \<not> list_ex failed (trace s1) \<and>
              RenewPhase_lock B c (stages im) s1 = (None, s2) \<and>
              RenewPhase_check B im before (r1 \<noteq> None) s2 = (None, reset3, s3) \<longrightarrow>
              (if IsExists (images B) (GetImage st) (world s3)
               then \<exists>tl. trace s' = trace s3 @
                      EvShouldBeReset (imageName st) (stageName st) (GetImage st)
                        (fst (ShouldBeReset (stageOps B) st (GetImage st) (world s3))) # tl
               else RenewPhase_check B im (before @ [st]) (r1 \<noteq> None) s2 = (None, reset3, s3)))"
proof (intro conjI)
  show "\<not> list_ex failed (trace s') \<longrightarrow>
            (r = Some ConveyorShouldBeResetError \<longleftrightarrow> list_ex reports_reset (trace s')) \<and>
            (r = None \<longleftrightarrow> \<not> list_ex reports_reset (trace s')) \<and>
            (\<forall>im sn i. EvShouldBeReset im sn i (True, None) \<in> set (trace s') \<longrightarrow>
               EvUntag i None \<in> set (trace s'))"
    using RenewPhase_images_inv[OF assms[unfolded RenewPhase_run_def]]
    by (auto simp: renew_inv_def untagged_def)
next
  have "stopped (trace s') r" if "list_ex failed (trace s')"
    using RenewPhase_images_stop[OF assms[unfolded RenewPhase_run_def] _ _ that] by simp
  then show "list_ex failed (trace s') \<longrightarrow>
              r \<noteq> None \<and> trace s' \<noteq> [] \<and> failed (last (trace s')) \<and>
              \<not> list_ex failed (butlast (trace s')) \<and>
              r = returned_error (last (trace s'))"
    by (auto simp: stopped_def failed_returned)
next
  show "\<forall>ims1 im ims2 before st rest r1 s1 s2 reset3 s3.
              imagesInOrder c = ims1 @ im # ims2 \<and> stages im = before @ st # rest \<and>
              RenewPhase_run B (c\<lparr>imagesInOrder := ims1\<rparr>) \<lparr>world = w, trace = []\<rparr> = (r1, s1) \<and>
              \<not> list_ex failed (trace s1) \<and>
              RenewPhase_lock B c (stages im) s1 = (None, s2) \<and>
              RenewPhase_check B im before (r1 \<noteq> None) s2 = (None, reset3, s3) \<longrightarrow>
              (if IsExists (images B) (GetImage st) (world s3)
               then \<exists>tl. trace s' = trace s3 @
                      EvShouldBeReset (imageName st) (stageName st) (GetImage st)
                        (fst (ShouldBeReset (stageOps B) st (GetImage st) (world s3))) # tl
               else RenewPhase_check B im (before @ [st]) (r1 \<noteq> None) s2 = (None, reset3, s3))"
  proof (intro allI impI, elim conjE)
    fix ims1 im ims2 before st rest r1 s1 s2 reset3 s3
    assume h: "imagesInOrder c = ims1 @ im # ims2" "stages im = before @ st # rest"
      "RenewPhase_run B (c\<lparr>imagesInOrder := ims1\<rparr>) \<lparr>world = w, trace = []\<rparr> = (r1, s1)"
      "\<not> list_ex failed (trace s1)"
      "RenewPhase_lock B c (stages im) s1 = (None, s2)"
      "RenewPhase_check B im before (r1 \<noteq> None) s2 = (None, reset3, s3)"
    show "if IsExists (images B) (GetImage st) (world s3)
               then \<exists>tl. trace s' = trace s3 @
                      EvShouldBeReset (imageName st) (stageName st) (GetImage st)
                        (fst (ShouldBeReset (stageOps B) st (GetImage st) (world s3))) # tl
               else RenewPhase_check B im (before @ [st]) (r1 \<noteq> None) s2 = (None, reset3, s3)"
    proof (cases "IsExists (images B) (GetImage st) (world s3)")
      case True
      from RenewPhase_run_asks[OF assms h True] True show ?thesis by simp
    next
      case False
      from RenewPhase_run_passes[OF h(6) False, of "[]"] False show ?thesis by simp
    qed
  qed
qed

theorem C4_renew_result_witness:
  "RenewPhase_run demo_backend
     (demo_conveyor [] [demo_image ''app'' [demo_stage ''app'' ''gitCache'' ''aa'',
                                            demo_stage ''app'' ''gitArchive'' ''bb'']])
     \<lparr>world = demo_world0 [''image-stage-demo:aa'', ''image-stage-demo:bb'']
                [''image-stage-demo:bb''] [], trace = []\<rparr>
   = (Some ConveyorShouldBeResetError,
      \<lparr>world = \<lparr>inMemory = [''image-stage-demo:aa''], daemon = [''image-stage-demo:aa''],
                 held = [''demo.image.image-stage-demo:aa'', ''demo.image.image-stage-demo:bb''],
                 stale = [''image-stage-demo:bb''], broken = []\<rparr>,
       trace = [EvLock ''demo.image.image-stage-demo:aa'' \<lparr>Timeout = 0\<rparr> None,
                EvSyncDockerState ''image-stage-demo:aa'' None,
                EvLock ''demo.image.image-stage-demo:bb'' \<lparr>Timeout = 0\<rparr> None,
                EvSyncDockerState ''image-stage-demo:bb'' None,
                EvShouldBeReset ''app'' ''gitCache'' ''image-stage-demo:aa'' (False, None),
                EvShouldBeReset ''app'' ''gitArchive'' ''image-stage-demo:bb'' (True, None),
                EvLog ''LogServiceF''
                  [''Untag '', ''image-stage-demo:bb'', '' for '', ''app'', ''/'', ''gitArchive''],
                EvUntag ''image-stage-demo:bb'' None]\<rparr>)
   \<and> EvUntag ''image-stage-demo:bb'' None \<in> set (trace (snd (RenewPhase_run demo_backend
     (demo_conveyor [] [demo_image ''app'' [demo_stage ''app'' ''gitCache'' ''aa'',
                                            demo_stage ''app'' ''gitArchive'' ''bb'']])
     \<lparr>world = demo_world0 [''image-stage-demo:aa'', ''image-stage-demo:bb'']
                [''image-stage-demo:bb''] [], trace = []\<rparr>)))
   \<and> (\<exists>tl. trace (snd (RenewPhase_run demo_backend
     (demo_conveyor [] [demo_image ''app'' [demo_stage ''app'' ''gitCache'' ''aa'',
                                            demo_stage ''app'' ''gitArchive'' ''bb'']])
     \<lparr>world = demo_world0 [''image-stage-demo:aa'', ''image-stage-demo:bb'']
                [''image-stage-demo:bb''] [], trace = []\<rparr>))
       = [EvLock ''demo.image.image-stage-demo:aa'' \<lparr>Timeout = 0\<rparr> None,
          EvSyncDockerState ''image-stage-demo:aa'' None,
          EvLock ''demo.image.image-stage-demo:bb'' \<lparr>Timeout = 0\<rparr> None,
          EvSyncDockerState ''image-stage-demo:bb'' None,
          EvShouldBeReset ''app'' ''gitCache'' ''image-stage-demo:aa'' (False, None)]
         @ EvShouldBeReset ''app'' ''gitArchive'' ''image-stage-demo:bb'' (True, None) # tl)
   \<and> fst (RenewPhase_run demo_backend
          (demo_conveyor [] [demo_image ''app'' [demo_stage ''app'' ''gitArchive'' ''aa'']])
          \<lparr>world = demo_world0 [''image-stage-demo:aa''] [''image-stage-demo:aa'']
                     [''image-stage-demo:aa''],
           trace = []\<rparr>)
       = returned_error (EvUntag ''image-stage-demo:aa'' (Some (ErrNew ''docker rmi failed'')))
   \<and> last (trace (snd (RenewPhase_run demo_backend
          (demo_conveyor [] [demo_image ''app'' [demo_stage ''app'' ''gitArchive'' ''aa'']])
          \<lparr>world = demo_world0 [''image-stage-demo:aa''] [''image-stage-demo:aa'']
                     [''image-stage-demo:aa''],
           trace = []\<rparr>)))
       = EvUntag ''image-stage-demo:aa'' (Some (ErrNew ''docker rmi failed''))"
proof -
  let ?a = "demo_stage ''app'' ''gitCache'' ''aa''"
  let ?b = "demo_stage ''app'' ''gitArchive'' ''bb''"
  let ?im = "demo_image ''app'' [?a, ?b]"
  let ?c = "demo_conveyor [] [?im]"
  let ?w = "demo_world0 [''image-stage-demo:aa'', ''image-stage-demo:bb'']
              [''image-stage-demo:bb''] []"
  let ?w2 = "\<lparr>inMemory = [''image-stage-demo:aa'', ''image-stage-demo:bb''],
             daemon = [''image-stage-demo:aa'', ''image-stage-demo:bb''],
             held = [''demo.image.image-stage-demo:aa'', ''demo.image.image-stage-demo:bb''],
             stale = [''image-stage-demo:bb''], broken = []\<rparr>"
  let ?t2 = "[EvLock ''demo.image.image-stage-demo:aa'' \<lparr>Timeout = 0\<rparr> None,
              EvSyncDockerState ''image-stage-demo:aa'' None,
              EvLock ''demo.image.image-stage-demo:bb'' \<lparr>Timeout = 0\<rparr> None,
              EvSyncDockerState ''image-stage-demo:bb'' None]"
  let ?t3 = "?t2 @ [EvShouldBeReset ''app'' ''gitCache'' ''image-stage-demo:aa'' (False, None)]"
  let ?s = "\<lparr>world = \<lparr>inMemory = [''image-stage-demo:aa''], daemon = [''image-stage-demo:aa''],
                 held = [''demo.image.image-stage-demo:aa'', ''demo.image.image-stage-demo:bb''],
                 stale = [''image-stage-demo:bb''], broken = []\<rparr>,
       trace = ?t3 @
               [EvShouldBeReset ''app'' ''gitArchive'' ''image-stage-demo:bb'' (True, None),
                EvLog ''LogServiceF''
                  [''Untag '', ''image-stage-demo:bb'', '' for '', ''app'', ''/'', ''gitArchive''],
                EvUntag ''image-stage-demo:bb'' None]\<rparr>"
  have run: "RenewPhase_run demo_backend ?c \<lparr>world = ?w, trace = []\<rparr>
               = (Some ConveyorShouldBeResetError, ?s)"
    by (simp add: demo_defs RenewPhase_run_def)
  note t = C4_renew_result[OF run]
  have nf: "\<not> list_ex failed (trace ?s)"
    by simp
  from t[THEN conjunct1] nf
  have untag: "EvUntag ''image-stage-demo:bb'' None \<in> set (trace ?s)"
    by simp
  have h: "imagesInOrder ?c = [] @ ?im # [] \<and> stages ?im = [?a] @ ?b # [] \<and>
      RenewPhase_run demo_backend (?c\<lparr>imagesInOrder := []\<rparr>) \<lparr>world = ?w, trace = []\<rparr>
        = (None, \<lparr>world = ?w, trace = []\<rparr>) \<and>
      \<not> list_ex failed (trace \<lparr>world = ?w, trace = []\<rparr>) \<and>
      RenewPhase_lock demo_backend ?c (stages ?im) \<lparr>world = ?w, trace = []\<rparr>
        = (None, \<lparr>world = ?w2, trace = ?t2\<rparr>) \<and>
      RenewPhase_check demo_backend ?im [?a] (None \<noteq> (None :: error option))
          \<lparr>world = ?w2, trace = ?t2\<rparr>
        = (None, False, \<lparr>world = ?w2, trace = ?t3\<rparr>)"
    by (simp add: demo_defs RenewPhase_run_def)
  from t[THEN conjunct2, THEN conjunct2, rule_format, OF h]
  have asked: "\<exists>tl. trace ?s = ?t3 @
      EvShouldBeReset ''app'' ''gitArchive'' ''image-stage-demo:bb'' (True, None) # tl"
    by (simp add: demo_defs)
  let ?c' = "demo_conveyor [] [demo_image ''app'' [demo_stage ''app'' ''gitArchive'' ''aa'']]"
  let ?w' = "demo_world0 [''image-stage-demo:aa''] [''image-stage-demo:aa'']
               [''image-stage-demo:aa'']"
  have l: "last (trace (snd (RenewPhase_run demo_backend ?c' \<lparr>world = ?w', trace = []\<rparr>)))
      = EvUntag ''image-stage-demo:aa'' (Some (ErrNew ''docker rmi failed''))"
    by (simp add: demo_defs RenewPhase_run_def)
  have f: "list_ex failed (trace (snd (RenewPhase_run demo_backend ?c' \<lparr>world = ?w', trace = []\<rparr>)))"
    by (simp add: demo_defs RenewPhase_run_def)
  from C4_renew_result[OF prod.collapse[symmetric], of demo_backend ?c' ?w', THEN conjunct2,
      THEN conjunct1] f
  have e: "fst (RenewPhase_run demo_backend ?c' \<lparr>world = ?w', trace = []\<rparr>)
      = returned_error (last (trace (snd (RenewPhase_run demo_backend ?c' \<lparr>world = ?w', trace = []\<rparr>))))"
    by simp
  from run untag asked e l show ?thesis
    by simp
qed

text \<open>
  Claim C3 fails on the code.  RenewPhase locks the image of the one stage and returns
  without a \<^verbatim>\<open>lock.Unlock\<close>: its \<^verbatim>\<open>acquiredLocks\<close> stays empty, so both the
  call of \<^verbatim>\<open>unlockLocks\<close> and the deferred one release nothing, and the lock is
  still held when the phase has returned.
\<close>

theorem C3_renew_lock_not_released:
  "RenewPhase_run demo_backend
     (demo_conveyor [] [demo_image ''app'' [demo_stage ''app'' ''install'' ''bb'']])
     \<lparr>world = demo_world0 [''image-stage-demo:bb''] [] [], trace = []\<rparr>
   = (None,
      \<lparr>world = \<lparr>inMemory = [''image-stage-demo:bb''], daemon = [''image-stage-demo:bb''],
                 held = [''demo.image.image-stage-demo:bb''], stale = [], broken = []\<rparr>,
       trace = [EvLock ''demo.image.image-stage-demo:bb'' \<lparr>Timeout = 0\<rparr> None,
                EvSyncDockerState ''image-stage-demo:bb'' None,
                EvShouldBeReset ''app'' ''install'' ''image-stage-demo:bb'' (False, None)]\<rparr>)"
  by (simp add: demo_defs RenewPhase_run_def)

section \<open>BuildPhase: a stage whose image exists\<close>

lemma BuildPhase_build_append:
  "BuildPhase_build B p c (xs @ ys) err acq s =
     (case BuildPhase_build B p c xs err acq s of
        Panicked s1 \<Rightarrow> Panicked s1
      | Done err1 acq1 s1 \<Rightarrow> BuildPhase_build B p c ys err1 acq1 s1)"
  by (induction xs arbitrary: err acq s)
     (auto simp: Let_def split: prod.splits option.splits build_pass.splits)

text \<open>
  Claim C5.  Whatever stages come before it, when the build pass reaches a stage whose
  image exists (also one that came to exist only when the lock pass synchronised it),
  the pass goes on with the next stage from a state in which nothing but the trace has
  changed, and the trace has grown by exactly the using-cache message and the four info
  lines: \<^verbatim>\<open>PreRunHook\<close>, \<^verbatim>\<open>Build\<close> and \<^verbatim>\<open>SaveInCache\<close> are not called,
  no lock is released, and \<^verbatim>\<open>err\<close> stays as it was.
\<close>

theorem C5_existing_stage_uses_cache:
  assumes "BuildPhase_build B p c before err acq s = Done err1 acq1 s1"
    and "IsExists (images B) (GetImage st) (world s1)"
  shows "BuildPhase_build B p c (before @ st # rest) err acq s =
           BuildPhase_build B p c rest err1 acq1 (using_cache B (stageName st) (GetImage st) s1)
         \<and> world (using_cache B (stageName st) (GetImage st) s1) = world s1
         \<and> trace (using_cache B (stageName st) (GetImage st) s1) =
             trace s1 @
             [EvLog ''LogServiceState'' [stageName st, ''[USING CACHE]''],
              EvLog ''LogInfoF'' [''       id: '', ID (Inspect (images B) (GetImage st) (world s1))],
              EvLog ''LogInfoF'' [''    image: '', GetImage st],
              EvLog ''LogInfoF'' [''     size: '', Size (Inspect (images B) (GetImage st) (world s1))],
              EvLog ''LogInfoF''
                [''  created: '', Created (Inspect (images B) (GetImage st) (world s1))]]"
  using assms by (simp add: BuildPhase_build_append using_cache_def emit_def Let_def)

text \<open>
  The witness: the image of the stage is in the local store, built by another process,
  but the handle does not know yet.  The lock pass locks and synchronises it, the build
  pass uses the cache, and the deferred call releases the lock.
\<close>

theorem C5_existing_stage_witness:
  "BuildPhase_runImage demo_backend demo_phase
     (demo_image ''app'' [demo_stage ''app'' ''install'' ''cc'']) (demo_conveyor [] [])
     \<lparr>world = \<lparr>inMemory = [], daemon = [''image-stage-demo:cc''], held = [], stale = [],
                broken = []\<rparr>,
      trace = []\<rparr>
   = (Returned None,
      \<lparr>world = \<lparr>inMemory = [''image-stage-demo:cc''], daemon = [''image-stage-demo:cc''],
                 held = [], stale = [], broken = []\<rparr>,
       trace = [EvLock ''demo.image.image-stage-demo:cc'' \<lparr>Timeout = 0\<rparr> None,
                EvSyncDockerState ''image-stage-demo:cc'' None,
                EvLog ''LogServiceState'' [''install'', ''[USING CACHE]''],
                EvLog ''LogInfoF'' [''       id: '', ''sha256:0''],
                EvLog ''LogInfoF'' [''    image: '', ''image-stage-demo:cc''],
                EvLog ''LogInfoF'' [''     size: '', ''1''],
                EvLog ''LogInfoF'' [''  created: '', ''now''],
                EvUnlock ''demo.image.image-stage-demo:cc'']\<rparr>)"
proof -
  let ?st = "demo_stage ''app'' ''install'' ''cc''"
  let ?c = "demo_conveyor [] []"
  let ?s1 = "\<lparr>world = \<lparr>inMemory = [''image-stage-demo:cc''], daemon = [''image-stage-demo:cc''],
                held = [''demo.image.image-stage-demo:cc''], stale = [], broken = []\<rparr>,
       trace = [EvLock ''demo.image.image-stage-demo:cc'' \<lparr>Timeout = 0\<rparr> None,
                EvSyncDockerState ''image-stage-demo:cc'' None]\<rparr>"
  have lock: "BuildPhase_lock demo_backend ?c [?st] []
                \<lparr>world = \<lparr>inMemory = [], daemon = [''image-stage-demo:cc''], held = [],
                           stale = [], broken = []\<rparr>, trace = []\<rparr>
              = (None, [''demo.image.image-stage-demo:cc''], ?s1)"
    by (simp add: demo_defs)
  have before: "BuildPhase_build demo_backend demo_phase ?c [] None
                  [''demo.image.image-stage-demo:cc''] ?s1
                = Done None [''demo.image.image-stage-demo:cc''] ?s1"
    by simp
  have ex: "IsExists (images demo_backend) (GetImage ?st) (world ?s1)"
    by (simp add: demo_defs)
  from C5_existing_stage_uses_cache[OF before ex, of "[]"]
  have "BuildPhase_build demo_backend demo_phase ?c [?st] None
          [''demo.image.image-stage-demo:cc''] ?s1
        = Done None [''demo.image.image-stage-demo:cc'']
            (using_cache demo_backend (stageName ?st) (GetImage ?st) ?s1)"
    by simp
  with lock show ?thesis
    by (simp add: BuildPhase_runImage_def demo_defs using_cache_def)
qed

section \<open>The timeouts of lock acquisitions\<close>

lemma lock_timeouts_append: "lock_timeouts (xs @ ys) = lock_timeouts xs @ lock_timeouts ys"
  by (induction xs rule: lock_timeouts.induct) auto

lemma lock_timeouts_unlocks: "lock_timeouts (map EvUnlock xs) = []"
  by (induction xs) auto

lemma zt_app: "zero_timeouts (xs @ ys) = (zero_timeouts xs \<and> zero_timeouts ys)"
  by (simp add: zero_timeouts_def lock_timeouts_append)

lemma zt_simps:
  "zero_timeouts []"
  "zero_timeouts (map EvUnlock xs)"
  "zero_timeouts (EvLock n opts r # evs) = (Timeout opts = 0 \<and> zero_timeouts evs)"
  "zero_timeouts (EvSyncDockerState i r1 # evs) = zero_timeouts evs"
  "zero_timeouts (EvShouldBeReset a b i r2 # evs) = zero_timeouts evs"
  "zero_timeouts (EvUntag i r1 # evs) = zero_timeouts evs"
  "zero_timeouts (EvLog k ss # evs) = zero_timeouts evs"
  "zero_timeouts (EvUnlock n # evs) = zero_timeouts evs"
  "zero_timeouts (EvPreRunHook a b r1 # evs) = zero_timeouts evs"
  "zero_timeouts (EvBuild i r1 # evs) = zero_timeouts evs"
  "zero_timeouts (EvSaveInCache i r1 # evs) = zero_timeouts evs"
  by (simp_all add: zero_timeouts_def lock_timeouts_unlocks)

lemma RenewPhase_lock_zt:
  "RenewPhase_lock B c sts s = (r, s') \<Longrightarrow> zero_timeouts (trace s) \<Longrightarrow> zero_timeouts (trace s')"
  by (induction sts arbitrary: s)
     (auto simp: Let_def zt_app zt_simps dest!: call_trace
           split: if_splits prod.splits option.splits)

lemma RenewPhase_check_zt:
  "RenewPhase_check B im sts reset s = (r, reset', s') \<Longrightarrow> zero_timeouts (trace s) \<Longrightarrow>
     zero_timeouts (trace s')"
  by (induction sts arbitrary: s reset)
     (auto simp: Let_def zt_app zt_simps emit_def dest!: call_trace
           split: if_splits prod.splits option.splits)

lemma RenewPhase_images_zt:
  "RenewPhase_images B c ims reset deferred s = (r, s') \<Longrightarrow> zero_timeouts (trace s) \<Longrightarrow>
     zero_timeouts (trace s')"
proof (induction ims arbitrary: s reset deferred)
  case Nil
  then show ?case by (auto simp: trace_run_deferred zt_app zt_simps)
next
  case (Cons im rest)
  then show ?case
    by (auto simp: trace_run_deferred zt_app zt_simps
             dest: RenewPhase_lock_zt RenewPhase_check_zt
             split: prod.splits option.splits)
qed

lemma BuildPhase_lock_zt:
  "BuildPhase_lock B c sts acq s = (r, acq', s') \<Longrightarrow> zero_timeouts (trace s) \<Longrightarrow>
     zero_timeouts (trace s')"
  by (induction sts arbitrary: s acq)
     (auto simp: Let_def zt_app zt_simps dest!: call_trace
           split: if_splits prod.splits option.splits)

lemma BuildPhase_building_zt:
  "BuildPhase_building B p c st s = (r, s') \<Longrightarrow> zero_timeouts (trace s) \<Longrightarrow>
     zero_timeouts (trace s')"
  by (auto simp: BuildPhase_building_def Let_def zt_app zt_simps emit_def dest!: call_trace
           split: if_splits prod.splits option.splits)

lemma BuildPhase_build_zt:
  "BuildPhase_build B p c sts err acq s = Done err' acq' s' \<or>
   BuildPhase_build B p c sts err acq s = Panicked s' \<Longrightarrow> zero_timeouts (trace s) \<Longrightarrow>
     zero_timeouts (trace s')"
proof (induction sts arbitrary: s err acq)
  case Nil
  then show ?case by auto
next
  case (Cons st rest)
  show ?case
  proof (cases "IsExists (images B) (GetImage st) (world s)")
    case True
    with Cons.prems(1)
    have "BuildPhase_build B p c rest err acq (using_cache B (stageName st) (GetImage st) s)
            = Done err' acq' s' \<or>
          BuildPhase_build B p c rest err acq (using_cache B (stageName st) (GetImage st) s)
            = Panicked s'"
      by (simp add: Let_def)
    from Cons.IH[OF this] Cons.prems(2) show ?thesis
      by (simp add: using_cache_def emit_def zt_app zt_simps)
  next
    case False
    obtain e1 s1 where
      b: "BuildPhase_building B p c st (emit (EvLog ''LogProcess'' [stageName st, ''[BUILDING]'']) s)
            = (e1, s1)"
      by fastforce
    have z1: "zero_timeouts (trace s1)"
      using BuildPhase_building_zt[OF b] Cons.prems(2) by (simp add: emit_def zt_app zt_simps)
    show ?thesis
    proof (cases acq)
      case Nil
      with Cons.prems(1) False b z1 show ?thesis by (auto simp: Let_def unlockLock_def)
    next
      case (Cons l ls)
      let ?s2 = "exec (Unlock (locks B) l) (EvUnlock l) s1"
      from Cons Cons.prems(1) False b
      have "BuildPhase_build B p c rest e1 ls ?s2 = Done err' acq' s' \<or>
            BuildPhase_build B p c rest e1 ls ?s2 = Panicked s'"
        by (simp add: Let_def unlockLock_def)
      from Cons.IH[OF this] z1 show ?thesis
        by (simp add: exec_def zt_app zt_simps)
    qed
  qed
qed

lemma BuildPhase_runImage_zt:
  "BuildPhase_runImage B p im c s = (r, s') \<Longrightarrow> zero_timeouts (trace s) \<Longrightarrow>
     zero_timeouts (trace s')"
  unfolding BuildPhase_runImage_def
  by (auto simp: trace_unlockLocks zt_app zt_simps
           dest: BuildPhase_lock_zt BuildPhase_build_zt[OF disjI1] BuildPhase_build_zt[OF disjI2]
           split: prod.splits option.splits build_pass.splits)

lemma withWorkTreeLock_refused:
  "Lock L (''git_work_tree '' @ workTree) \<lparr>Timeout = 600000000000\<rparr> (world s) = (Some err, w1) \<Longrightarrow>
     withWorkTreeLock L workTree f s =
       (Inl err, \<lparr>world = w1,
                  trace = trace s @ [EvLock (''git_work_tree '' @ workTree)
                                       \<lparr>Timeout = 600000000000\<rparr> (Some err)]\<rparr>)"
  by (simp add: withWorkTreeLock_def WithLock_def call_def Second_def Let_def)

lemma withWorkTreeLock_acquired:
  "Lock L (''git_work_tree '' @ workTree) \<lparr>Timeout = 600000000000\<rparr> (world s) = (None, w1) \<Longrightarrow>
     withWorkTreeLock L workTree f s =
       (fst (f \<lparr>world = w1,
                trace = trace s @ [EvLock (''git_work_tree '' @ workTree)
                                     \<lparr>Timeout = 600000000000\<rparr> None]\<rparr>),
        exec (Unlock L (''git_work_tree '' @ workTree)) (EvUnlock (''git_work_tree '' @ workTree))
          (snd (f \<lparr>world = w1,
                   trace = trace s @ [EvLock (''git_work_tree '' @ workTree)
                                        \<lparr>Timeout = 600000000000\<rparr> None]\<rparr>)))"
  by (simp add: withWorkTreeLock_def WithLock_def call_def Second_def split_beta Let_def)

lemma withRemoteRepoLock_refused:
  "Lock L (''remote_git_path.'' @ RepoName repo) \<lparr>Timeout = 600000000000\<rparr> (world s)
     = (Some err, w1) \<Longrightarrow>
   withRemoteRepoLock L repo f s =
     (Inl err, \<lparr>world = w1,
                trace = trace s @ [EvLock (''remote_git_path.'' @ RepoName repo)
                                     \<lparr>Timeout = 600000000000\<rparr> (Some err)]\<rparr>)"
  by (simp add: withRemoteRepoLock_def WithLock_def call_def Second_def Let_def)

lemma withRemoteRepoLock_acquired:
  "Lock L (''remote_git_path.'' @ RepoName repo) \<lparr>Timeout = 600000000000\<rparr> (world s)
     = (None, w1) \<Longrightarrow>
   withRemoteRepoLock L repo f s =
     (fst (f \<lparr>world = w1,
              trace = trace s @ [EvLock (''remote_git_path.'' @ RepoName repo)
                                   \<lparr>Timeout = 600000000000\<rparr> None]\<rparr>),
      exec (Unlock L (''remote_git_path.'' @ RepoName repo))
        (EvUnlock (''remote_git_path.'' @ RepoName repo))
        (snd (f \<lparr>world = w1,
                 trace = trace s @ [EvLock (''remote_git_path.'' @ RepoName repo)
                                      \<lparr>Timeout = 600000000000\<rparr> None]\<rparr>)))"
  by (simp add: withRemoteRepoLock_def WithLock_def call_def Second_def split_beta Let_def)

text \<open>
  Claim C9, as stated, fails for the image locks: the lock RenewPhase takes on the
  image of a stage is asked for with the empty \<^verbatim>\<open>lock.LockOptions{}\<close>, whose
  timeout is zero and not 600 seconds.
\<close>

theorem C9_image_lock_timeout_counterexample:
  "lock_timeouts (trace (snd (RenewPhase_run demo_backend
      (demo_conveyor [] [demo_image ''web'' [demo_stage ''web'' ''setup'' ''ee'']])
      \<lparr>world = demo_world0 [''image-stage-demo:ee''] [] [], trace = []\<rparr>))) = [0]
   \<and> (0 :: int) \<noteq> 600 * Second"
  by (simp add: demo_defs RenewPhase_run_def Second_def)

text \<open>
  Claim C9, amended.  The work tree lock and the remote repository lock are asked for
  with a timeout of 600 seconds (in nanoseconds); when the lock is refused, as on a
  timeout, the caller's function is not run and the error is returned, and when it is
  acquired the function runs and the lock is released after it.  Every lock RenewPhase
  and \<^verbatim>\<open>BuildPhase.runImage\<close> acquire is asked for with the zero timeout of the
  empty options: the sources pass no 600 seconds for the image locks.
\<close>

theorem C9_lock_timeouts:
  "600 * Second = 600000000000
   \<and> (\<forall>err w1. Lock L (''git_work_tree '' @ workTree) \<lparr>Timeout = 600000000000\<rparr> (world s)
                  = (Some err, w1) \<longrightarrow>
        withWorkTreeLock L workTree f s =
          (Inl err, \<lparr>world = w1,
                     trace = trace s @ [EvLock (''git_work_tree '' @ workTree)
                                          \<lparr>Timeout = 600000000000\<rparr> (Some err)]\<rparr>))
   \<and> (\<forall>w1. Lock L (''git_work_tree '' @ workTree) \<lparr>Timeout = 600000000000\<rparr> (world s)
              = (None, w1) \<longrightarrow>
        withWorkTreeLock L workTree f s =
          (fst (f \<lparr>world = w1,
                   trace = trace s @ [EvLock (''git_work_tree '' @ workTree)
                                        \<lparr>Timeout = 600000000000\<rparr> None]\<rparr>),
           exec (Unlock L (''git_work_tree '' @ workTree))
             (EvUnlock (''git_work_tree '' @ workTree))
             (snd (f \<lparr>world = w1,
                      trace = trace s @ [EvLock (''git_work_tree '' @ workTree)
                                           \<lparr>Timeout = 600000000000\<rparr> None]\<rparr>))))
   \<and> (\<forall>err w1. Lock L (''remote_git_path.'' @ RepoName repo) \<lparr>Timeout = 600000000000\<rparr> (world s)
                  = (Some err, w1) \<longrightarrow>
        withRemoteRepoLock L repo g s =
          (Inl err, \<lparr>world = w1,
                     trace = trace s @ [EvLock (''remote_git_path.'' @ RepoName repo)
                                          \<lparr>Timeout = 600000000000\<rparr> (Some err)]\<rparr>))
   \<and> (\<forall>w1. Lock L (''remote_git_path.'' @ RepoName repo) \<lparr>Timeout = 600000000000\<rparr> (world s)
              = (None, w1) \<longrightarrow>
        withRemoteRepoLock L repo g s =
          (fst (g \<lparr>world = w1,
                   trace = trace s @ [EvLock (''remote_git_path.'' @ RepoName repo)
                                        \<lparr>Timeout = 600000000000\<rparr> None]\<rparr>),
           exec (Unlock L (''remote_git_path.'' @ RepoName repo))
             (EvUnlock (''remote_git_path.'' @ RepoName repo))
             (snd (g \<lparr>world = w1,
                      trace = trace s @ [EvLock (''remote_git_path.'' @ RepoName repo)
                                           \<lparr>Timeout = 600000000000\<rparr> None]\<rparr>))))
   \<and> (\<forall>r s'. RenewPhase_run B c \<lparr>world = w, trace = []\<rparr> = (r, s') \<longrightarrow>
         zero_timeouts (trace s'))
   \<and> (\<forall>r s'. BuildPhase_runImage B p im c \<lparr>world = w, trace = []\<rparr> = (r, s') \<longrightarrow>
         zero_timeouts (trace s'))"
proof (intro conjI allI impI)
  show "600 * Second = 600000000000" by (simp add: Second_def)
next
  fix r s' assume "RenewPhase_run B c \<lparr>world = w, trace = []\<rparr> = (r, s')"
  then show "zero_timeouts (trace s')"
    using RenewPhase_images_zt[of B c "imagesInOrder c" False "[]" "\<lparr>world = w, trace = []\<rparr>" r s']
    by (simp add: RenewPhase_run_def zt_simps)
next
  fix r s' assume "BuildPhase_runImage B p im c \<lparr>world = w, trace = []\<rparr> = (r, s')"
  then show "zero_timeouts (trace s')"
    using BuildPhase_runImage_zt[of B p im c "\<lparr>world = w, trace = []\<rparr>" r s']
    by (simp add: zt_simps)
qed (simp_all add: withWorkTreeLock_refused withWorkTreeLock_acquired
       withRemoteRepoLock_refused withRemoteRepoLock_acquired)


theorem C9_lock_timeouts_witness:
  "withWorkTreeLock demo_tree_locks ''/wt'' (\<lambda>s. (Inr (), s)) \<lparr>world = tree_before, trace = []\<rparr>
     = (Inr (),
        \<lparr>world = tree_before,
         trace = [EvLock ''git_work_tree /wt'' \<lparr>Timeout = 600000000000\<rparr> None,
                  EvUnlock ''git_work_tree /wt'']\<rparr>)
   \<and> withRemoteRepoLock
       \<lparr>Lock = (\<lambda>n opts w. (Some (ErrNew ''lock timeout''), w)), Unlock = (\<lambda>n w. w)\<rparr>
       (GitRepo demo_gitPath) (\<lambda>s. (Inr (), s)) \<lparr>world = tree_before, trace = []\<rparr>
     = (Inl (ErrNew ''lock timeout''),
        \<lparr>world = tree_before,
         trace = [EvLock ''remote_git_path.origin'' \<lparr>Timeout = 600000000000\<rparr>
                    (Some (ErrNew ''lock timeout''))]\<rparr>)
   \<and> zero_timeouts (trace (snd (RenewPhase_run demo_backend
        (demo_conveyor [] [demo_image ''web'' [demo_stage ''web'' ''setup'' ''ee'']])
        \<lparr>world = demo_world0 [''image-stage-demo:ee''] [] [], trace = []\<rparr>)))
   \<and> zero_timeouts (trace (snd (BuildPhase_runImage demo_backend demo_phase
        (demo_image ''web'' [demo_stage ''web'' ''setup'' ''ee'']) (demo_conveyor [] [])
        \<lparr>world = demo_world0 [] [] [], trace = []\<rparr>)))"
proof -
  note acquired = C9_lock_timeouts[THEN conjunct2, THEN conjunct2, THEN conjunct1, rule_format]
  note refused = C9_lock_timeouts[THEN conjunct2, THEN conjunct2, THEN conjunct2, THEN conjunct1,
      rule_format]
  note renew = C9_lock_timeouts[THEN conjunct2, THEN conjunct2, THEN conjunct2, THEN conjunct2,
      THEN conjunct2, THEN conjunct1, rule_format]
  note build = C9_lock_timeouts[THEN conjunct2, THEN conjunct2, THEN conjunct2, THEN conjunct2,
      THEN conjunct2, THEN conjunct2, rule_format]
  have 1: "withWorkTreeLock demo_tree_locks ''/wt'' (\<lambda>s. (Inr (), s))
             \<lparr>world = tree_before, trace = []\<rparr>
     = (Inr (),
        \<lparr>world = tree_before,
         trace = [EvLock ''git_work_tree /wt'' \<lparr>Timeout = 600000000000\<rparr> None,
                  EvUnlock ''git_work_tree /wt'']\<rparr>)"
    using acquired[of demo_tree_locks "''/wt''" "\<lparr>world = tree_before, trace = []\<rparr>" tree_before
        "\<lambda>s. (Inr (), s)"]
    by (simp add: demo_tree_locks_def exec_def)
  have 2: "withRemoteRepoLock
       \<lparr>Lock = (\<lambda>n opts w. (Some (ErrNew ''lock timeout''), w)), Unlock = (\<lambda>n w. w)\<rparr>
       (GitRepo demo_gitPath) (\<lambda>s. (Inr (), s)) \<lparr>world = tree_before, trace = []\<rparr>
     = (Inl (ErrNew ''lock timeout''),
        \<lparr>world = tree_before,
         trace = [EvLock ''remote_git_path.origin'' \<lparr>Timeout = 600000000000\<rparr>
                    (Some (ErrNew ''lock timeout''))]\<rparr>)"
    using refused[of "\<lparr>Lock = (\<lambda>n opts w. (Some (ErrNew ''lock timeout''), w)), Unlock = (\<lambda>n w. w)\<rparr>"
        "GitRepo demo_gitPath" "\<lparr>world = tree_before, trace = []\<rparr>" "ErrNew ''lock timeout''"
        tree_before "\<lambda>s. (Inr (), s)"]
    by (simp add: demo_gitPath_def)
  have 3: "zero_timeouts (trace (snd (RenewPhase_run demo_backend
        (demo_conveyor [] [demo_image ''web'' [demo_stage ''web'' ''setup'' ''ee'']])
        \<lparr>world = demo_world0 [''image-stage-demo:ee''] [] [], trace = []\<rparr>)))"
    by (rule renew) (rule prod.collapse[symmetric])
  have 4: "zero_timeouts (trace (snd (BuildPhase_runImage demo_backend demo_phase
        (demo_image ''web'' [demo_stage ''web'' ''setup'' ''ee'']) (demo_conveyor [] [])
        \<lparr>world = demo_world0 [] [] [], trace = []\<rparr>)))"
    by (rule build) (rule prod.collapse[symmetric])
  from 1 2 3 4 show ?thesis by (intro conjI)
qed

section \<open>PrepareImagesPhase\<close>

lemma PrepareImagesPhase_stages_prepared:
  assumes "PrepareImagesPhase_stages B sts prevImage pbi c s = (r, c', s')"
    and "prepared_with (projectName c) (werfVersion B) (sshAuthSock c) (trace s)"
  shows "prepared_with (projectName c) (werfVersion B) (sshAuthSock c) (trace s')"
  using assms
proof (induction sts arbitrary: prevImage pbi c s)
  case Nil
  then show ?case by simp
next
  case (Cons st rest)
  let ?pbi = "if IsExists (images B) prevImage (world s) then Some prevImage else pbi"
  let ?i = "GetImage st"
  show ?case
  proof (cases "GetImageBySignature c (GetSignature st) \<noteq> None
                  \<or> IsExists (images B) ?i (world s)")
    case True
    with Cons.prems(1) have "PrepareImagesPhase_stages B rest ?i ?pbi c s = (r, c', s')"
      by (simp add: Let_def)
    from Cons.IH[OF this Cons.prems(2)] show ?thesis .
  next
    case False
    let ?labels = "[(''werf'', projectName c), (''werf-version'', werfVersion B),
                       (WerfCacheVersionLabel, BuildCacheVersion),
                       (''werf-image'', ''false''), (''werf-dev-mode'', ''false'')]"
    let ?s1 = "exec (AddLabel (images B) ?i ?labels) (EvAddLabel ?i ?labels) s"
    let ?vol = "sshAuthSock c @ '':/tmp/werf-ssh-agent''"
    let ?env = "[(''SSH_AUTH_SOCK'', ''/tmp/werf-ssh-agent'')]"
    let ?s2 = "if sshAuthSock c \<noteq> [] then
                 exec (AddEnv (images B) ?i ?env) (EvAddEnv ?i ?env)
                   (exec (AddVolume (images B) ?i ?vol) (EvAddVolume ?i ?vol) ?s1)
               else ?s1"
    obtain r3 s3 where pr: "call (PrepareImage (stageOps B) st c ?pbi ?i)
                      (EvPrepareImage (imageName st) (stageName st) ?pbi ?i) ?s2 = (r3, s3)"
      by fastforce
    note t3 = call_trace[OF pr]
    have p3: "prepared_with (projectName c) (werfVersion B) (sshAuthSock c) (trace s3)"
      using Cons.prems(2) t3
      by (auto simp: prepared_with_def service_labels_def exec_def WerfCacheVersionLabel_def
                     BuildCacheVersion_def)
    show ?thesis
    proof (cases r3)
      case (Some err)
      with Cons.prems(1) False pr p3 show ?thesis
        by (auto simp: Let_def)
    next
      case None
      let ?c = "SetImageBySignature c (GetSignature st) ?i"
      from None Cons.prems(1) False pr
      have rec: "PrepareImagesPhase_stages B rest ?i ?pbi ?c s3 = (r, c', s')"
        by (auto simp: Let_def)
      have "prepared_with (projectName ?c) (werfVersion B) (sshAuthSock ?c) (trace s3)"
        using p3 by (simp add: SetImageBySignature_def)
      from Cons.IH[OF rec this] show ?thesis
        by (simp add: SetImageBySignature_def)
    qed
  qed
qed

lemma PrepareImagesPhase_runImage_prepared:
  assumes "PrepareImagesPhase_runImage B im c s = (r, c', s')"
    and "prepared_with (projectName c) (werfVersion B) (sshAuthSock c) (trace s)"
  shows "prepared_with (projectName c) (werfVersion B) (sshAuthSock c) (trace s')"
proof -
  obtain r1 s1 where
    b: "call (PrepareBaseImage (conveyorOps B) im c) (EvPrepareBaseImage (GetName im)) s = (r1, s1)"
    by fastforce
  note t1 = call_trace[OF b]
  have p1: "prepared_with (projectName c) (werfVersion B) (sshAuthSock c) (trace s1)"
    using assms(2) t1 by (auto simp: prepared_with_def)
  show ?thesis
  proof (cases r1)
    case (Some err)
    with assms(1) b p1 show ?thesis by (auto simp: PrepareImagesPhase_runImage_def)
  next
    case None
    with assms(1) b
    have "PrepareImagesPhase_stages B (GetStages im) (baseImage im) None c s1 = (r, c', s')"
      by (simp add: PrepareImagesPhase_runImage_def)
    from PrepareImagesPhase_stages_prepared[OF this p1] show ?thesis .
  qed
qed

text \<open>The phase prepares the first image of the list and returns.\<close>

lemma PrepareImagesPhase_run_first_only:
  "PrepareImagesPhase_run B c s =
     (case imagesInOrder c of [] \<Rightarrow> (None, c, s)
      | im # rest \<Rightarrow> PrepareImagesPhase_runImage B im c s)"
  by (auto simp: PrepareImagesPhase_run_def split: list.splits prod.splits option.splits)

text \<open>
  Claim C2 fails on the code.  With two images in \<^verbatim>\<open>imagesInOrder\<close>, neither stage
  image existing and nothing registered, the phase returns nil after the first: there is
  no \<^verbatim>\<open>PrepareBaseImage\<close>, no label and no \<^verbatim>\<open>PrepareImage\<close> for the image
  \<^verbatim>\<open>web\<close>.
\<close>

theorem C2_second_image_not_prepared:
  "fst (PrepareImagesPhase_run demo_backend
          (demo_conveyor [] [demo_image ''app'' [demo_stage ''app'' ''install'' ''cc''],
                             demo_image ''web'' [demo_stage ''web'' ''install'' ''dd'']])
          \<lparr>world = demo_world0 [] [] [], trace = []\<rparr>) = None
   \<and> trace (snd (snd (PrepareImagesPhase_run demo_backend
          (demo_conveyor [] [demo_image ''app'' [demo_stage ''app'' ''install'' ''cc''],
                             demo_image ''web'' [demo_stage ''web'' ''install'' ''dd'']])
          \<lparr>world = demo_world0 [] [] [], trace = []\<rparr>)))
     = [EvPrepareBaseImage ''app'' None,
        EvAddLabel ''image-stage-demo:cc''
          [(''werf'', ''demo''), (''werf-version'', ''v1.0.0''), (''werf-cache-version'', ''33''),
           (''werf-image'', ''false''), (''werf-dev-mode'', ''false'')],
        EvPrepareImage ''app'' ''install'' None ''image-stage-demo:cc'' None]"
  by (simp add: demo_defs PrepareImagesPhase_run_def PrepareImagesPhase_runImage_def
        GetImageBySignature_def SetImageBySignature_def WerfCacheVersionLabel_def
        BuildCacheVersion_def)

text \<open>
  Claim C6, as stated, fails for the terminal stage: the only stage of the image is its
  terminal stage, and the label it receives is \<^verbatim>\<open>werf-image=false\<close>, not
  \<^verbatim>\<open>true\<close>.
\<close>

theorem C6_terminal_stage_label_counterexample:
  "EvAddLabel ''image-stage-demo:ff''
     [(''werf'', ''demo''), (''werf-version'', ''v1.0.0''), (''werf-cache-version'', ''33''),
      (''werf-image'', ''false''), (''werf-dev-mode'', ''false'')]
     \<in> set (trace (snd (snd (PrepareImagesPhase_run demo_backend
          (demo_conveyor [] [demo_image ''app'' [demo_stage ''app'' ''dockerInstructions'' ''ff'']])
          \<lparr>world = demo_world0 [] [] [], trace = []\<rparr>))))
   \<and> EvAddLabel ''image-stage-demo:ff''
     [(''werf'', ''demo''), (''werf-version'', ''v1.0.0''), (''werf-cache-version'', ''33''),
      (''werf-image'', ''true''), (''werf-dev-mode'', ''false'')]
     \<notin> set (trace (snd (snd (PrepareImagesPhase_run demo_backend
          (demo_conveyor [] [demo_image ''app'' [demo_stage ''app'' ''dockerInstructions'' ''ff'']])
          \<lparr>world = demo_world0 [] [] [], trace = []\<rparr>))))"
  by (simp add: demo_defs PrepareImagesPhase_run_def PrepareImagesPhase_runImage_def
        GetImageBySignature_def SetImageBySignature_def WerfCacheVersionLabel_def
        BuildCacheVersion_def)

text \<open>
  Claim C6, amended.  Every label call PrepareImagesPhase makes carries exactly the
  labels \<^verbatim>\<open>werf={project}\<close>, \<^verbatim>\<open>werf-version={tool-version}\<close>,
  \<^verbatim>\<open>werf-cache-version=33\<close>, \<^verbatim>\<open>werf-image=false\<close> and
  \<^verbatim>\<open>werf-dev-mode=false\<close>, the terminal stage included; every stage image handed to
  \<^verbatim>\<open>PrepareImage\<close> has received them, and when \<^verbatim>\<open>sshAuthSock\<close> is not empty
  also the volume \<^verbatim>\<open>{sshAuthSock}:/tmp/werf-ssh-agent\<close> and the variable
  \<^verbatim>\<open>SSH_AUTH_SOCK=/tmp/werf-ssh-agent\<close>; when it is empty the phase adds no volume
  and no variable.
\<close>

theorem C6_service_labels:
  assumes "PrepareImagesPhase_run B c \<lparr>world = w, trace = []\<rparr> = (r, c', s')"
  shows "prepared_with (projectName c) (werfVersion B) (sshAuthSock c) (trace s')"
proof (cases "imagesInOrder c")
  case Nil
  with assms show ?thesis
    by (auto simp: PrepareImagesPhase_run_def prepared_with_def)
next
  case (Cons im rest)
  with assms have "PrepareImagesPhase_runImage B im c \<lparr>world = w, trace = []\<rparr> = (r, c', s')"
    by (simp add: PrepareImagesPhase_run_first_only)
  from PrepareImagesPhase_runImage_prepared[OF this] show ?thesis
    by (simp add: prepared_with_def)
qed

theorem C6_service_labels_witness:
  "trace (snd (snd (PrepareImagesPhase_run demo_backend
      (demo_conveyor ''/run/ssh-agent.sock'' [demo_image ''app'' [demo_stage ''app'' ''install'' ''cc'']])
      \<lparr>world = demo_world0 [] [] [], trace = []\<rparr>)))
     = [EvPrepareBaseImage ''app'' None,
        EvAddLabel ''image-stage-demo:cc''
          [(''werf'', ''demo''), (''werf-version'', ''v1.0.0''), (''werf-cache-version'', ''33''),
           (''werf-image'', ''false''), (''werf-dev-mode'', ''false'')],
        EvAddVolume ''image-stage-demo:cc'' ''/run/ssh-agent.sock:/tmp/werf-ssh-agent'',
        EvAddEnv ''image-stage-demo:cc'' [(''SSH_AUTH_SOCK'', ''/tmp/werf-ssh-agent'')],
        EvPrepareImage ''app'' ''install'' None ''image-stage-demo:cc'' None]
   \<and> prepared_with ''demo'' ''v1.0.0'' ''/run/ssh-agent.sock''
       (trace (snd (snd (PrepareImagesPhase_run demo_backend
          (demo_conveyor ''/run/ssh-agent.sock''
             [demo_image ''app'' [demo_stage ''app'' ''install'' ''cc'']])
          \<lparr>world = demo_world0 [] [] [], trace = []\<rparr>))))"
proof -
  let ?c = "demo_conveyor ''/run/ssh-agent.sock''
              [demo_image ''app'' [demo_stage ''app'' ''install'' ''cc'']]"
  let ?run = "PrepareImagesPhase_run demo_backend ?c \<lparr>world = demo_world0 [] [] [], trace = []\<rparr>"
  have tr: "trace (snd (snd ?run))
     = [EvPrepareBaseImage ''app'' None,
        EvAddLabel ''image-stage-demo:cc''
          [(''werf'', ''demo''), (''werf-version'', ''v1.0.0''), (''werf-cache-version'', ''33''),
           (''werf-image'', ''false''), (''werf-dev-mode'', ''false'')],
        EvAddVolume ''image-stage-demo:cc'' ''/run/ssh-agent.sock:/tmp/werf-ssh-agent'',
        EvAddEnv ''image-stage-demo:cc'' [(''SSH_AUTH_SOCK'', ''/tmp/werf-ssh-agent'')],
        EvPrepareImage ''app'' ''install'' None ''image-stage-demo:cc'' None]"
    by (simp add: demo_defs PrepareImagesPhase_run_def PrepareImagesPhase_runImage_def
        GetImageBySignature_def SetImageBySignature_def WerfCacheVersionLabel_def
        BuildCacheVersion_def)
  have "?run = (fst ?run, fst (snd ?run), snd (snd ?run))"
    by simp
  from C6_service_labels[OF this]
  have "prepared_with ''demo'' ''v1.0.0'' ''/run/ssh-agent.sock'' (trace (snd (snd ?run)))"
    by (simp add: demo_conveyor_def demo_backend_def)
  with tr show ?thesis by simp
qed

section \<open>SignaturesPhase: signatures and image names\<close>



lemma hex_length: "length (hex bytes) = 2 * length bytes"
  by (induction bytes) (auto simp: hex_def)










section \<open>GitStage: the building git stage of an image\<close>

lemma hook_slot_taken:
  "GetBuildingGitStage c (imageName st) \<noteq> [] \<Longrightarrow>
     GitStage_AfterImageSyncDockerStateHook B st c s = (None, c, s)"
  by (simp add: GitStage_AfterImageSyncDockerStateHook_def Let_def)

lemma hooks_slot_taken:
  "GetBuildingGitStage c n \<noteq> [] \<Longrightarrow> \<forall>st \<in> set sts. imageName st = n \<Longrightarrow>
     GitStage_hooks B sts c s = (c, s)"
  by (induction sts) (auto simp: hook_slot_taken)

lemma hooks_claim:
  assumes "\<forall>st \<in> set sts. imageName st = n \<and> stageName st \<noteq> []"
    and "GetBuildingGitStage c n = []"
  shows "GitStage_hooks B sts c s =
     (case find (\<lambda>st. \<not> IsExists (images B) (stageImage st) (world s)) sts of
        None \<Rightarrow> (c, s)
      | Some st \<Rightarrow>
          (SetBuildingGitStage c n (stageName st),
           emit (EvLog ''LogInfoF''
                   [''Git files will be actualized on the stage '', stageName st]) s))"
  using assms
proof (induction sts)
  case Nil
  then show ?case by simp
next
  case (Cons st rest)
  show ?case
  proof (cases "IsExists (images B) (stageImage st) (world s)")
    case True
    with Cons show ?thesis
      by (simp add: GitStage_AfterImageSyncDockerStateHook_def)
  next
    case False
    let ?c = "SetBuildingGitStage c n (stageName st)"
    have "GetBuildingGitStage ?c n \<noteq> []"
      using Cons.prems(1) by (simp add: GetBuildingGitStage_def SetBuildingGitStage_def)
    from hooks_slot_taken[OF this, of rest] Cons.prems False show ?thesis
      by (simp add: GitStage_AfterImageSyncDockerStateHook_def Let_def)
  qed
qed

text \<open>
  Claim C8, as stated, fails for an image that is fully cached: the images of all its
  git stages exist, so no hook sets the slot.  After the hooks of the three stages the
  conveyor is unchanged, nothing was logged and the slot of the image is still empty: no
  stage has claimed it.
\<close>

theorem C8_cached_image_counterexample:
  "GitStage_hooks demo_backend
     [demo_stage ''app'' ''gitCache'' ''aa'', demo_stage ''app'' ''gitLatestPatch'' ''bb'',
      demo_stage ''app'' ''gitArchive'' ''cc'']
     (demo_conveyor [] [])
     \<lparr>world = demo_world0
                [''image-stage-demo:aa'', ''image-stage-demo:bb'', ''image-stage-demo:cc''] [] [],
      trace = []\<rparr>
   = (demo_conveyor [] [],
      \<lparr>world = demo_world0
                 [''image-stage-demo:aa'', ''image-stage-demo:bb'', ''image-stage-demo:cc''] [] [],
       trace = []\<rparr>)
   \<and> GetBuildingGitStage
       (fst (GitStage_hooks demo_backend
          [demo_stage ''app'' ''gitCache'' ''aa'', demo_stage ''app'' ''gitLatestPatch'' ''bb'',
           demo_stage ''app'' ''gitArchive'' ''cc'']
          (demo_conveyor [] [])
          \<lparr>world = demo_world0
                     [''image-stage-demo:aa'', ''image-stage-demo:bb'', ''image-stage-demo:cc'']
                     [] [],
           trace = []\<rparr>)) ''app'' = []"
  by (simp add: demo_defs GitStage_AfterImageSyncDockerStateHook_def GetBuildingGitStage_def)

text \<open>
  Claim C8, amended.  For every image, the slot is claimed by at most one stage per run,
  and by exactly one when the image of one of its git stages does not exist.  Take the
  git stages of one image in their order, with names that are not empty, and the image's
  slot empty.  After their hooks the slot holds the name of the first stage whose image
  does not exist, set by the one call that also logs the line, or it is still empty when
  every image exists: no second stage sets it, and the slot is set if and only if the
  image of some stage does not exist.  A hook that finds the slot of its image set
  changes nothing.
\<close>

theorem C8_building_git_stage_claimed_once:
  assumes "\<forall>st \<in> set sts. imageName st = n \<and> stageName st \<noteq> []"
    and "GetBuildingGitStage c n = []"
  shows "GitStage_hooks B sts c \<lparr>world = w, trace = []\<rparr> =
           (case find (\<lambda>st. \<not> IsExists (images B) (stageImage st) w) sts of
              None \<Rightarrow> (c, \<lparr>world = w, trace = []\<rparr>)
            | Some st \<Rightarrow>
                (SetBuildingGitStage c n (stageName st),
                 \<lparr>world = w,
                  trace = [EvLog ''LogInfoF''
                             [''Git files will be actualized on the stage '', stageName st]]\<rparr>))
         \<and> (\<forall>st. GetBuildingGitStage (SetBuildingGitStage c n (stageName st)) n = stageName st)
         \<and> (\<forall>st c0 s0. GetBuildingGitStage c0 (imageName st) \<noteq> [] \<longrightarrow>
               GitStage_AfterImageSyncDockerStateHook B st c0 s0 = (None, c0, s0))
         \<and> (GetBuildingGitStage (fst (GitStage_hooks B sts c \<lparr>world = w, trace = []\<rparr>)) n \<noteq> []
              \<longleftrightarrow> (\<exists>st \<in> set sts. \<not> IsExists (images B) (stageImage st) w))"
proof -
  let ?P = "\<lambda>st. \<not> IsExists (images B) (stageImage st) w"
  note eq = hooks_claim[OF assms, of B "\<lparr>world = w, trace = []\<rparr>"]
  have 1: "GitStage_hooks B sts c \<lparr>world = w, trace = []\<rparr> =
           (case find ?P sts of
              None \<Rightarrow> (c, \<lparr>world = w, trace = []\<rparr>)
            | Some st \<Rightarrow>
                (SetBuildingGitStage c n (stageName st),
                 \<lparr>world = w,
                  trace = [EvLog ''LogInfoF''
                             [''Git files will be actualized on the stage '', stageName st]]\<rparr>))"
    using eq by (auto simp: emit_def split: option.splits)
  have 2: "\<forall>st. GetBuildingGitStage (SetBuildingGitStage c n (stageName st)) n = stageName st"
    by (simp add: GetBuildingGitStage_def SetBuildingGitStage_def)
  have 3: "\<forall>st c0 s0. GetBuildingGitStage c0 (imageName st) \<noteq> [] \<longrightarrow>
               GitStage_AfterImageSyncDockerStateHook B st c0 s0 = (None, c0, s0)"
    by (simp add: hook_slot_taken)
  have 4: "GetBuildingGitStage (fst (GitStage_hooks B sts c \<lparr>world = w, trace = []\<rparr>)) n \<noteq> []
              \<longleftrightarrow> (\<exists>st \<in> set sts. ?P st)"
  proof (cases "find ?P sts")
    case None
    then have "\<not> (\<exists>st \<in> set sts. ?P st)"
      by (simp add: find_None_iff)
    with None 1 assms(2) show ?thesis by simp
  next
    case (Some st)
    then have m: "st \<in> set sts" and p: "?P st"
      by (auto simp: find_Some_iff)
    from m assms(1) have "stageName st \<noteq> []" by blast
    moreover from 2 have "GetBuildingGitStage (SetBuildingGitStage c n (stageName st)) n
        = stageName st"
      by blast
    ultimately have "GetBuildingGitStage (SetBuildingGitStage c n (stageName st)) n \<noteq> []"
      by simp
    with Some 1 m p show ?thesis by auto
  qed
  from 1 2 3 4 show ?thesis by (intro conjI)
qed

theorem C8_building_git_stage_witness:
  "GetBuildingGitStage
     (fst (GitStage_hooks demo_backend
             [demo_stage ''app'' ''gitCache'' ''aa'', demo_stage ''app'' ''gitLatestPatch'' ''bb'',
              demo_stage ''app'' ''gitArchive'' ''cc'']
             (demo_conveyor [] [])
             \<lparr>world = demo_world0 [''image-stage-demo:aa''] [] [], trace = []\<rparr>)) ''app''
     = ''gitLatestPatch''
   \<and> trace (snd (GitStage_hooks demo_backend
             [demo_stage ''app'' ''gitCache'' ''aa'', demo_stage ''app'' ''gitLatestPatch'' ''bb'',
              demo_stage ''app'' ''gitArchive'' ''cc'']
             (demo_conveyor [] [])
             \<lparr>world = demo_world0 [''image-stage-demo:aa''] [] [], trace = []\<rparr>))
     = [EvLog ''LogInfoF'' [''Git files will be actualized on the stage '', ''gitLatestPatch'']]"
proof -
  let ?sts = "[demo_stage ''app'' ''gitCache'' ''aa'', demo_stage ''app'' ''gitLatestPatch'' ''bb'',
               demo_stage ''app'' ''gitArchive'' ''cc'']"
  have a: "\<forall>st \<in> set ?sts. imageName st = ''app'' \<and> stageName st \<noteq> []"
    by (simp add: demo_stage_def)
  have b: "GetBuildingGitStage (demo_conveyor [] []) ''app'' = []"
    by (simp add: GetBuildingGitStage_def demo_conveyor_def)
  from C8_building_git_stage_claimed_once[OF a b, of demo_backend
      "demo_world0 [''image-stage-demo:aa''] [] []"]
  show ?thesis
    by (simp add: demo_defs GetBuildingGitStage_def SetBuildingGitStage_def)
qed

section \<open>Checksum: the order of the patterns and the names of the files\<close>

lemma checksum_patterns_ok:
  "\<forall>p \<in> set ps. \<not> isl (getFilesByPattern F w wt (Join F bp p)) \<Longrightarrow>
   checksum_patterns F w wt bp ps paths nm =
     Inr (paths @ concat (map (\<lambda>p. projr (getFilesByPattern F w wt (Join F bp p))) ps),
          nm @ filter (\<lambda>p. length (projr (getFilesByPattern F w wt (Join F bp p))) = 0) ps)"
  by (induction ps arbitrary: paths nm) (auto split: sum.splits)

lemma checksum_patterns_fail:
  "\<exists>p \<in> set ps. isl (getFilesByPattern F w wt (Join F bp p)) \<Longrightarrow>
   isl (checksum_patterns F w wt bp ps paths nm)"
  by (induction ps arbitrary: paths nm) (auto split: sum.splits)

lemma sort_mset_eq: "mset xs = mset ys \<Longrightarrow> sort xs = sort (ys :: string list)"
  by (metis properties_for_sort mset_sort sorted_sort)

lemma mset_concat_map_perm:
  "mset ps = mset ps' \<Longrightarrow> mset (concat (map f ps)) = mset (concat (map f ps'))"
proof -
  assume a: "mset ps = mset ps'"
  have "mset (concat (map f ps)) = sum_mset (image_mset (mset \<circ> f) (mset ps))"
    for ps :: "'a list"
    by (induction ps) auto
  with a show ?thesis by simp
qed

lemma checksum_patterns_perm:
  assumes "mset ps' = mset ps"
  shows "(isl (checksum_patterns F w wt bp ps' [] []) \<and> isl (checksum_patterns F w wt bp ps [] []))
       \<or> (\<exists>paths' nm' paths nm. checksum_patterns F w wt bp ps' [] [] = Inr (paths', nm') \<and>
             checksum_patterns F w wt bp ps [] [] = Inr (paths, nm) \<and> sort paths' = sort paths)"
proof (cases "\<forall>p \<in> set ps. \<not> isl (getFilesByPattern F w wt (Join F bp p))")
  case True
  from assms have se: "set ps' = set ps" by (metis set_mset_mset)
  with True have True': "\<forall>p \<in> set ps'. \<not> isl (getFilesByPattern F w wt (Join F bp p))"
    by simp
  have "sort (concat (map (\<lambda>p. projr (getFilesByPattern F w wt (Join F bp p))) ps')) =
        sort (concat (map (\<lambda>p. projr (getFilesByPattern F w wt (Join F bp p))) ps))"
    by (rule sort_mset_eq) (rule mset_concat_map_perm[OF assms])
  with checksum_patterns_ok[OF True, of "[]" "[]"] checksum_patterns_ok[OF True', of "[]" "[]"]
  show ?thesis by simp
next
  case False
  then have f: "\<exists>p \<in> set ps. isl (getFilesByPattern F w wt (Join F bp p))"
    by blast
  from assms have se: "set ps' = set ps" by (metis set_mset_mset)
  with f have f': "\<exists>p \<in> set ps'. isl (getFilesByPattern F w wt (Join F bp p))"
    by simp
  from checksum_patterns_fail[OF f, of "[]" "[]"] checksum_patterns_fail[OF f', of "[]" "[]"]
  show ?thesis by blast
qed

lemma checksum_files_perm:
  assumes "mset ps' = mset ps"
  shows "map_sum (\<lambda>e. ()) Hash (fst (checksum_files G F wt (opts\<lparr>Paths := ps'\<rparr>) s1)) =
         map_sum (\<lambda>e. ()) Hash (fst (checksum_files G F wt (opts\<lparr>Paths := ps\<rparr>) s1))"
  using checksum_patterns_perm[OF assms, of F "world s1" wt "BasePath opts"]
  by (auto simp: checksum_files_def Let_def isl_def split: sum.splits)

lemma checksum_locked_perm:
  assumes "mset ps' = mset ps"
  shows "map_sum (\<lambda>e. ()) Hash (fst (checksum_locked G F sub gd wt (opts\<lparr>Paths := ps'\<rparr>) s)) =
         map_sum (\<lambda>e. ()) Hash (fst (checksum_locked G F sub gd wt (opts\<lparr>Paths := ps\<rparr>) s))"
  using checksum_files_perm[OF assms, of G F wt opts]
  by (cases sub) (auto simp: checksum_locked_def split: prod.splits option.splits)

lemma checksum_perm:
  assumes "mset ps' = mset ps"
  shows "map_sum (\<lambda>e. ()) Hash (fst (checksum L G F rp gd wt (opts\<lparr>Paths := ps'\<rparr>) s)) =
         map_sum (\<lambda>e. ()) Hash (fst (checksum L G F rp gd wt (opts\<lparr>Paths := ps\<rparr>) s))"
proof -
  have "map_sum (\<lambda>e. ()) Hash
          (fst (withWorkTreeLock L wt (checksum_locked G F sub gd wt (opts\<lparr>Paths := ps'\<rparr>)) s)) =
        map_sum (\<lambda>e. ()) Hash
          (fst (withWorkTreeLock L wt (checksum_locked G F sub gd wt (opts\<lparr>Paths := ps\<rparr>)) s))"
    for sub
    using checksum_locked_perm[OF assms, of G F sub gd wt opts]
    by (simp add: withWorkTreeLock_def WithLock_def Let_def split_beta split: option.splits)
  then show ?thesis
    by (auto simp: checksum_def split: option.splits sum.splits prod.splits)
qed

lemma checksum_paths_written:
  "checksum_paths G F w pf wt paths h = Inr h' \<Longrightarrow>
     h' = h @ concat (map (\<lambda>p. p @ path_tail F w wt p) (filter (IsFilePathValid G pf) paths))"
proof (induction paths arbitrary: h)
  case Nil
  then show ?case by simp
next
  case (Cons a paths)
  show ?case
  proof (cases "IsFilePathValid G pf a")
    case False
    with Cons.prems have "checksum_paths G F w pf wt paths h = Inr h'"
      by (simp add: Let_def)
    from Cons.IH[OF this] False show ?thesis by simp
  next
    case True
    with Cons.prems
    have "checksum_paths G F w pf wt paths (h @ a @ path_tail F w wt a) = Inr h'"
      by (auto simp: Let_def path_tail_def split: if_splits sum.splits option.splits)
    from Cons.IH[OF this] True show ?thesis by simp
  qed
qed

text \<open>
  Claim C7, as stated, fails for a rename that moves the file in the sorted order.  In
  the work tree \<open>tree_before\<close> the file \<^verbatim>\<open>6447\<close> is renamed to \<^verbatim>\<open>7644\<close>,
  giving \<open>tree_after\<close>; modes and contents stay.  The bytes written to the hash are
  the same for both, so the digest is the same whatever the hash function.
\<close>

theorem C7_rename_counterexample:
  "map fst tree_before = [''6447'', ''64476447'']
   \<and> map fst tree_after = [''7644'', ''64476447'']
   \<and> map snd tree_after = map snd tree_before
   \<and> demo_checksum [''*''] tree_before
       = Inr \<lparr>NoMatchPaths = [], Hash = ''64476447644764464476447644''\<rparr>
   \<and> demo_checksum [''*''] tree_after
       = Inr \<lparr>NoMatchPaths = [], Hash = ''64476447644764464476447644''\<rparr>
   \<and> (\<forall>H. map_sum id (ChecksumString H) (demo_checksum [''*''] tree_after)
          = map_sum id (ChecksumString H) (demo_checksum [''*''] tree_before))"
proof -
  have b: "demo_checksum [''*''] tree_before
       = Inr \<lparr>NoMatchPaths = [], Hash = ''64476447644764464476447644''\<rparr>"
    by code_simp
  have a: "demo_checksum [''*''] tree_after
       = Inr \<lparr>NoMatchPaths = [], Hash = ''64476447644764464476447644''\<rparr>"
    by code_simp
  show ?thesis
    unfolding a b by (simp add: tree_before_def tree_after_def ChecksumString_def)
qed

text \<open>
  Claim C7, amended.  Permuting the patterns given to \<^verbatim>\<open>checksum\<close> changes neither
  whether it fails nor the bytes written to the hash, so not the digest: the matched
  paths are sorted before they are hashed.  For every path the filter lets through, the
  path is written first, then its mode and its content or link target; so putting
  another name in the place of a hashed path, the mode, the content and the other
  paths being as they were, changes the bytes written.  (A rename that moves the file in
  the sorted order may leave them unchanged: the fields are written without
  separators.)
\<close>

theorem C7_checksum_patterns_and_paths:
  assumes "mset ps' = mset ps"
  shows "map_sum (\<lambda>e. ()) Hash (fst (checksum L G F rp gd wt (opts\<lparr>Paths := ps'\<rparr>) s)) =
         map_sum (\<lambda>e. ()) Hash (fst (checksum L G F rp gd wt (opts\<lparr>Paths := ps\<rparr>) s))
       \<and> (\<forall>d d'. fst (checksum L G F rp gd wt (opts\<lparr>Paths := ps'\<rparr>) s) = Inr d' \<and>
                  fst (checksum L G F rp gd wt (opts\<lparr>Paths := ps\<rparr>) s) = Inr d \<longrightarrow>
                  ChecksumString H d' = ChecksumString H d)
       \<and> (\<forall>paths h h'. checksum_paths G F w pf wt paths h = Inr h' \<longrightarrow>
             h' = h @ concat (map (\<lambda>p. p @ path_tail F w wt p)
                                 (filter (IsFilePathValid G pf) paths)))
       \<and> (\<forall>pre p post h p'.
             checksum_paths G F w pf wt (pre @ p # post) [] = Inr h \<and>
             IsFilePathValid G pf p \<and> p' \<noteq> p \<longrightarrow>
             h = concat (map (\<lambda>p. p @ path_tail F w wt p) (filter (IsFilePathValid G pf) pre))
                 @ p @ path_tail F w wt p
                 @ concat (map (\<lambda>p. p @ path_tail F w wt p) (filter (IsFilePathValid G pf) post))
             \<and> concat (map (\<lambda>p. p @ path_tail F w wt p) (filter (IsFilePathValid G pf) pre))
                 @ p' @ path_tail F w wt p
                 @ concat (map (\<lambda>p. p @ path_tail F w wt p) (filter (IsFilePathValid G pf) post))
               \<noteq> h)"
proof (intro conjI allI impI)
  show perm: "map_sum (\<lambda>e. ()) Hash (fst (checksum L G F rp gd wt (opts\<lparr>Paths := ps'\<rparr>) s)) =
         map_sum (\<lambda>e. ()) Hash (fst (checksum L G F rp gd wt (opts\<lparr>Paths := ps\<rparr>) s))"
    by (rule checksum_perm[OF assms])
  fix d d'
  assume "fst (checksum L G F rp gd wt (opts\<lparr>Paths := ps'\<rparr>) s) = Inr d' \<and>
          fst (checksum L G F rp gd wt (opts\<lparr>Paths := ps\<rparr>) s) = Inr d"
  with perm show "ChecksumString H d' = ChecksumString H d"
    by (simp add: ChecksumString_def)
next
  fix paths h h'
  assume "checksum_paths G F w pf wt paths h = Inr h'"
  then show "h' = h @ concat (map (\<lambda>p. p @ path_tail F w wt p)
                                 (filter (IsFilePathValid G pf) paths))"
    by (rule checksum_paths_written)
next
  fix pre p post h p'
  assume a: "checksum_paths G F w pf wt (pre @ p # post) [] = Inr h \<and>
             IsFilePathValid G pf p \<and> p' \<noteq> p"
  from checksum_paths_written[of G F w pf wt "pre @ p # post" "[]" h] a
  show "h = concat (map (\<lambda>p. p @ path_tail F w wt p) (filter (IsFilePathValid G pf) pre))
                 @ p @ path_tail F w wt p
                 @ concat (map (\<lambda>p. p @ path_tail F w wt p) (filter (IsFilePathValid G pf) post))"
    by simp
  then show "concat (map (\<lambda>p. p @ path_tail F w wt p) (filter (IsFilePathValid G pf) pre))
                 @ p' @ path_tail F w wt p
                 @ concat (map (\<lambda>p. p @ path_tail F w wt p) (filter (IsFilePathValid G pf) post))
               \<noteq> h"
    using a by simp
qed

theorem C7_checksum_witness:
  "map_sum (\<lambda>e. ()) Hash (demo_checksum [''docs'', ''*''] tree_before)
     = map_sum (\<lambda>e. ()) Hash (demo_checksum [''*'', ''docs''] tree_before)
   \<and> demo_checksum [''*'', ''docs''] tree_before
       = Inr \<lparr>NoMatchPaths = [''docs''], Hash = ''64476447644764464476447644''\<rparr>
   \<and> demo_checksum [''docs'', ''*''] tree_before
       = Inr \<lparr>NoMatchPaths = [''docs''], Hash = ''64476447644764464476447644''\<rparr>
   \<and> checksum_paths demo_tree_git demo_fs tree_before
       \<lparr>FilterBasePath = [], FilterIncludePaths = [], FilterExcludePaths = []\<rparr> ''/wt''
       [''6447'', ''64476447''] [] = Inr ''64476447644764464476447644''
   \<and> ''64476447644764464476447644''
       = ''6447'' @ path_tail demo_fs tree_before ''/wt'' ''6447''
         @ ''64476447'' @ path_tail demo_fs tree_before ''/wt'' ''64476447''"
proof -
  have m: "mset [''docs'', ''*''] = mset [''*'', ''docs'']"
    by simp
  note t = C7_checksum_patterns_and_paths[OF m, of demo_tree_locks demo_tree_git demo_fs
      "''/repo''" "''/repo/.git''" "''/wt''" "demo_opts []" "\<lparr>world = tree_before, trace = []\<rparr>"
      id tree_before "\<lparr>FilterBasePath = [], FilterIncludePaths = [], FilterExcludePaths = []\<rparr>"]
  have 1: "map_sum (\<lambda>e. ()) Hash (demo_checksum [''docs'', ''*''] tree_before)
     = map_sum (\<lambda>e. ()) Hash (demo_checksum [''*'', ''docs''] tree_before)"
    using t[THEN conjunct1] by (simp add: demo_checksum_def demo_opts_def)
  have 2: "demo_checksum [''*'', ''docs''] tree_before
       = Inr \<lparr>NoMatchPaths = [''docs''], Hash = ''64476447644764464476447644''\<rparr>"
    by code_simp
  have 3: "demo_checksum [''docs'', ''*''] tree_before
       = Inr \<lparr>NoMatchPaths = [''docs''], Hash = ''64476447644764464476447644''\<rparr>"
    by code_simp
  have 4: "checksum_paths demo_tree_git demo_fs tree_before
       \<lparr>FilterBasePath = [], FilterIncludePaths = [], FilterExcludePaths = []\<rparr> ''/wt''
       [''6447'', ''64476447''] [] = Inr ''64476447644764464476447644''"
    by code_simp
  from t[THEN conjunct2, THEN conjunct2, THEN conjunct1, rule_format, OF 4]
  have 5: "''64476447644764464476447644''
       = ''6447'' @ path_tail demo_fs tree_before ''/wt'' ''6447''
         @ ''64476447'' @ path_tail demo_fs tree_before ''/wt'' ''64476447''"
    by (simp add: demo_tree_git_def)
  from 1 2 3 4 5 show ?thesis by (intro conjI)
qed

end
